theory Spec2Isabelle
  imports Main "HOL-Library.Sublist" "HOL-Library.List_Lexorder"
begin

section \<open>Python values\<close>

text \<open>
  A Python \<open>str\<close> is a sequence of Unicode code points; it is modelled as a list of
  natural numbers. \<open>py\<close> turns an ASCII literal into such a list, so the source's
  \<^verbatim>\<open>"--local"\<close> is written \<open>py ''--local''\<close>. Paths, command-line arguments and file
  contents are all of this type.
\<close>

type_synonym pystr = "nat list"
type_synonym path = pystr

definition py :: "string \<Rightarrow> pystr" where
  "py cs = map of_char cs"

definition nl :: pystr where
  "nl = [10]"

text \<open>\<^verbatim>\<open>sep.join(xs)\<close>.\<close>

fun join :: "pystr \<Rightarrow> pystr list \<Rightarrow> pystr" where
  "join sep [] = []"
| "join sep [x] = x"
| "join sep (x # y # ys) = x @ sep @ join sep (y # ys)"

text \<open>\<^verbatim>\<open>str(n)\<close> for a non-negative integer (the source only prints lengths).\<close>

function str_nat :: "nat \<Rightarrow> pystr" where
  "str_nat n = (if n < 10 then [48 + n] else str_nat (n div 10) @ [48 + n mod 10])"
  by pat_completeness auto
termination
  by (relation "measure id") auto

text \<open>\<^verbatim>\<open>s.rstrip("/")\<close>, \<^verbatim>\<open>os.path.basename\<close> and \<^verbatim>\<open>os.path.join\<close> of two components (POSIX).\<close>

definition slash :: nat where
  "slash = 47"

definition dot :: nat where
  "dot = 46"

definition rstrip_slash :: "pystr \<Rightarrow> pystr" where
  "rstrip_slash s = rev (dropWhile (\<lambda>c. c = slash) (rev s))"

definition basename :: "path \<Rightarrow> pystr" where
  "basename p = rev (takeWhile (\<lambda>c. c \<noteq> slash) (rev p))"

definition path_join :: "path \<Rightarrow> pystr \<Rightarrow> path" where
  "path_join a b =
     (if b \<noteq> [] \<and> hd b = slash then b
      else if a = [] \<or> last a = slash then a @ b
      else a @ [slash] @ b)"

text \<open>
  \<^verbatim>\<open>Path(p).suffix\<close>: with \<open>name\<close> the final component and \<open>i = name.rfind(".")\<close>, the
  suffix is \<open>name[i:]\<close> when \<open>0 < i < len(name) - 1\<close> and the empty string otherwise.
\<close>

definition rfind_dot :: "pystr \<Rightarrow> nat option" where
  "rfind_dot name =
     (if dot \<in> set name then Some (length name - Suc (length (takeWhile (\<lambda>c. c \<noteq> dot) (rev name))))
      else None)"

definition path_suffix :: "path \<Rightarrow> pystr" where
  "path_suffix p =
     (let name = basename p in
      case rfind_dot name of
        None \<Rightarrow> []
      | Some i \<Rightarrow> if 0 < i \<and> i < length name - 1 then drop i name else [])"

text \<open>
  \<^verbatim>\<open>s.lower()\<close> on the ASCII letters. No code point outside \<open>A\<close>..\<open>Z\<close> lower-cases to
  one of the characters of \<^verbatim>\<open>.evtx\<close>, so the comparison of a lower-cased suffix with
  \<^verbatim>\<open>".evtx"\<close>, the only use the source makes of it, is decided by the ASCII letters.
\<close>

definition lower_char :: "nat \<Rightarrow> nat" where
  "lower_char c = (if 65 \<le> c \<and> c \<le> 90 then c + 32 else c)"

definition lower :: "pystr \<Rightarrow> pystr" where
  "lower s = map lower_char s"

text \<open>
  \<^verbatim>\<open>s.splitlines()\<close> splits at the line boundaries of Python (\<^verbatim>\<open>\r\n\<close> counts once) and
  yields no final empty line; \<^verbatim>\<open>s.strip()\<close> removes the white space of \<^verbatim>\<open>str.isspace\<close>
  at both ends.
\<close>

definition is_linebreak :: "nat \<Rightarrow> bool" where
  "is_linebreak c \<longleftrightarrow> c \<in> set [0x0A, 0x0B, 0x0C, 0x0D, 0x1C, 0x1D, 0x1E, 0x85, 0x2028, 0x2029]"

definition is_space :: "nat \<Rightarrow> bool" where
  "is_space c \<longleftrightarrow>
     c \<in> set [0x09, 0x0A, 0x0B, 0x0C, 0x0D, 0x1C, 0x1D, 0x1E, 0x1F, 0x20, 0x85, 0xA0, 0x1680,
              0x2000, 0x2001, 0x2002, 0x2003, 0x2004, 0x2005, 0x2006, 0x2007, 0x2008, 0x2009,
              0x200A, 0x2028, 0x2029, 0x202F, 0x205F, 0x3000]"

fun split_from :: "pystr \<Rightarrow> pystr \<Rightarrow> pystr list" where
  "split_from cur [] = (if cur = [] then [] else [cur])"
| "split_from cur [c] = (if is_linebreak c then [cur] else [cur @ [c]])"
| "split_from cur (c # d # cs) =
     (if c = 0x0D \<and> d = 0x0A then cur # split_from [] cs
      else if is_linebreak c then cur # split_from [] (d # cs)
      else split_from (cur @ [c]) (d # cs))"

definition splitlines :: "pystr \<Rightarrow> pystr list" where
  "splitlines s = split_from [] s"

definition strip :: "pystr \<Rightarrow> pystr" where
  "strip s = rev (dropWhile is_space (rev (dropWhile is_space s)))"

text \<open>\<^verbatim>\<open>needle in text\<close> on strings is the contiguous-sublist test \<^const>\<open>sublist\<close>.\<close>

section \<open>Configuration\<close>

text \<open>
  The module-level settings (lines 18 to 46 of \<^verbatim>\<open>scripts/scan_and_report.py\<close>), read once
  from the environment: already stripped, lower-cased and split as the source does it.
\<close>

record config =
  EVTX_ROOT :: path
  REPORTS_DIR :: path
  CHAINS_MODE :: pystr
  CHAINS_FORMAT :: pystr
  CHAINS_LEVELS :: "pystr list"
  SIGMA_DIR :: path
  MAPPING_YML :: path
  CHAINS_RULE_DIR :: path
  QUIET :: bool
  LOCAL_TIME :: bool
  TIMEZONE :: pystr
  FROM :: pystr
  TO :: pystr
  EXTENSIONS :: "pystr list"
  SMTP_HOST :: pystr
  SMTP_PORT :: int
  SMTP_TLS :: bool
  SMTP_USER :: pystr
  SMTP_PASS :: pystr
  MAIL_FROM :: pystr
  MAIL_TO :: "pystr list"
  MAIL_SUBJECT_PREFIX :: pystr

section \<open>Command Builder\<close>

text \<open>
  \<^verbatim>\<open>build_hunt_cmd_for_file\<close> (lines 68 to 119). \<open>cmd.append\<close> and \<open>cmd.extend\<close> become
  \<open>@\<close>; the loop over the levels is a fold.
\<close>

definition build_hunt_cmd_for_file :: "config \<Rightarrow> path \<Rightarrow> path \<Rightarrow> path \<Rightarrow> bool \<Rightarrow> pystr list" where
  "build_hunt_cmd_for_file cfg evtx_file output_dir rules_dir force_non_quiet =
     (let cmd0 = [py ''chainsaw'', py ''hunt'',
                  py ''--mapping'', MAPPING_YML cfg,
                  py ''--output'', output_dir,
                  py ''--sigma'', SIGMA_DIR cfg];
          cmd1 = (if CHAINS_FORMAT cfg = py ''csv'' then cmd0 @ [py ''--csv'']
                  else if CHAINS_FORMAT cfg = py ''json'' then cmd0 @ [py ''--json'']
                  else if CHAINS_FORMAT cfg = py ''log'' then cmd0 @ [py ''--log'']
                  else cmd0 @ [py ''--csv'']);
          cmd2 = foldl (\<lambda>cmd lv. cmd @ [py ''--level'', lv]) cmd1 (CHAINS_LEVELS cfg);
          cmd3 = (if LOCAL_TIME cfg then cmd2 @ [py ''--local'']
                  else if TIMEZONE cfg \<noteq> [] then cmd2 @ [py ''--timezone'', TIMEZONE cfg]
                  else cmd2);
          cmd4 = cmd3 @ [py ''-r'', rules_dir];
          cmd5 = (if FROM cfg \<noteq> [] then cmd4 @ [py ''--from'', FROM cfg] else cmd4);
          cmd6 = (if TO cfg \<noteq> [] then cmd5 @ [py ''--to'', TO cfg] else cmd5);
          effective_quiet = (QUIET cfg \<and> \<not> force_non_quiet);
          cmd7 = (if effective_quiet then cmd6 @ [py ''-q''] else cmd6)
      in cmd7 @ [evtx_file])"


section \<open>The environment\<close>

text \<open>
  The script acts on a file system, a clock, the SCANNER subprocess and an SMTP server.
  The state of all of them is a value \<open>'w\<close> (a world), and \<open>'w os\<close> holds one function per
  library call the source makes. A call that can raise returns \<open>Inl\<close> of the exception, and a
  call that raised leaves the world as it was. \<open>rmtree\<close> is
  \<^verbatim>\<open>shutil.rmtree(d, ignore_errors=True)\<close> and \<open>isdir\<close> is \<^verbatim>\<open>os.path.isdir\<close>: neither raises.
  \<open>subprocess_run cmd log\<close> is \<^verbatim>\<open>subprocess.run(cmd, ..., check=False)\<close>, with the log file the
  output is redirected to (\<open>None\<close> when it is captured); the exit status is ignored by the
  source, so it is not part of the result. \<open>write_text\<close> stands for the buffered
  \<^verbatim>\<open>lf.write\<close> together with its flush.
\<close>

datatype exc = Exc pystr

datatype smtp_cmd =
    Connect pystr int
  | Ehlo
  | StartTLS
  | Login pystr pystr
  | Sendmail pystr "pystr list" pystr pystr

record 'w os =
  strftime_now :: "'w \<Rightarrow> pystr"
  isoformat_now :: "'w \<Rightarrow> pystr"
  makedirs :: "path \<Rightarrow> 'w \<Rightarrow> exc + 'w"
  rglob :: "path \<Rightarrow> 'w \<Rightarrow> exc + path list"
  is_file :: "path \<Rightarrow> 'w \<Rightarrow> exc + bool"
  resolve :: "path \<Rightarrow> 'w \<Rightarrow> exc + path"
  mkdtemp :: "pystr \<Rightarrow> 'w \<Rightarrow> exc + path \<times> 'w"
  open_w :: "path \<Rightarrow> 'w \<Rightarrow> exc + 'w"
  write_text :: "path \<Rightarrow> pystr \<Rightarrow> 'w \<Rightarrow> exc + 'w"
  subprocess_run :: "pystr list \<Rightarrow> path option \<Rightarrow> 'w \<Rightarrow> exc + 'w"
  scandir :: "path \<Rightarrow> 'w \<Rightarrow> exc + pystr list"
  read_text :: "path \<Rightarrow> 'w \<Rightarrow> exc + pystr"
  isdir :: "path \<Rightarrow> 'w \<Rightarrow> bool"
  rmtree :: "path \<Rightarrow> 'w \<Rightarrow> 'w"
  listdir :: "path \<Rightarrow> 'w \<Rightarrow> exc + pystr list"
  smtp :: "smtp_cmd list \<Rightarrow> 'w \<Rightarrow> exc + 'w"

text \<open>
  What the script does to its environment is recorded as a trace of events, in program
  order, next to the world. \<open>EvRead p r\<close> is a call of \<^verbatim>\<open>Path(p).read_text\<close> with its
  outcome \<open>r\<close>; \<open>EvMkdtemp d\<close> is a call of \<^verbatim>\<open>tempfile.mkdtemp\<close> that created \<open>d\<close>.
\<close>

datatype event =
    EvMakedirs path
  | EvMkdtemp path
  | EvOpen path
  | EvWrite path pystr
  | EvRun "pystr list" "path option"
  | EvRead path "exc + pystr"
  | EvRmtree path
  | EvStdout pystr
  | EvStderr pystr
  | EvSendMail pystr pystr
  | EvSmtp "smtp_cmd list"

type_synonym 'w state = "'w \<times> event list"
type_synonym ('w, 'a) io = "'w state \<Rightarrow> (exc + 'a) \<times> 'w state"

definition return_io :: "'a \<Rightarrow> ('w, 'a) io" where
  "return_io a = (\<lambda>st. (Inr a, st))"

definition bind_io :: "('w, 'a) io \<Rightarrow> ('a \<Rightarrow> ('w, 'b) io) \<Rightarrow> ('w, 'b) io" where
  "bind_io m f = (\<lambda>st. case m st of (Inl e, st') \<Rightarrow> (Inl e, st') | (Inr a, st') \<Rightarrow> f a st')"

text \<open>\<^verbatim>\<open>try: m except Exception as e: h(e)\<close> and \<^verbatim>\<open>try: m finally: fin\<close> (\<open>fin\<close> cannot raise here).\<close>

definition try_except :: "('w, 'a) io \<Rightarrow> (exc \<Rightarrow> ('w, 'a) io) \<Rightarrow> ('w, 'a) io" where
  "try_except m h = (\<lambda>st. case m st of (Inl e, st') \<Rightarrow> h e st' | (Inr a, st') \<Rightarrow> (Inr a, st'))"

definition try_finally :: "('w, 'a) io \<Rightarrow> ('w state \<Rightarrow> 'w state) \<Rightarrow> ('w, 'a) io" where
  "try_finally m fin = (\<lambda>st. case m st of (r, st') \<Rightarrow> (r, fin st'))"

definition emit :: "event \<Rightarrow> ('w, unit) io" where
  "emit ev = (\<lambda>(w, tr). (Inr (), (w, tr @ [ev])))"

definition effect :: "event \<Rightarrow> ('w \<Rightarrow> exc + 'w) \<Rightarrow> ('w, unit) io" where
  "effect ev f =
     (\<lambda>(w, tr). case f w of
        Inl e \<Rightarrow> (Inl e, (w, tr @ [ev]))
      | Inr w' \<Rightarrow> (Inr (), (w', tr @ [ev])))"

definition observe :: "('w \<Rightarrow> exc + 'a) \<Rightarrow> ('w, 'a) io" where
  "observe f = (\<lambda>(w, tr). (f w, (w, tr)))"

definition do_mkdtemp :: "'w os \<Rightarrow> pystr \<Rightarrow> ('w, path) io" where
  "do_mkdtemp os pfx =
     (\<lambda>(w, tr). case mkdtemp os pfx w of
        Inl e \<Rightarrow> (Inl e, (w, tr))
      | Inr (d, w') \<Rightarrow> (Inr d, (w', tr @ [EvMkdtemp d])))"

definition do_read_text :: "'w os \<Rightarrow> path \<Rightarrow> ('w, pystr) io" where
  "do_read_text os p = (\<lambda>(w, tr). (read_text os p w, (w, tr @ [EvRead p (read_text os p w)])))"

section \<open>Paths of \<^verbatim>\<open>pathlib\<close>\<close>

text \<open>
  \<^verbatim>\<open>str(Path(d) / name)\<close> for an entry \<open>name\<close> of the directory \<open>d\<close>: \<^verbatim>\<open>pathlib\<close> drops empty and
  \<^verbatim>\<open>.\<close> components of \<open>d\<close> and keeps its root. Paths compare by their parts.
\<close>

fun split_on :: "nat \<Rightarrow> pystr \<Rightarrow> pystr \<Rightarrow> pystr list" where
  "split_on sep cur [] = [cur]"
| "split_on sep cur (c # cs) =
     (if c = sep then cur # split_on sep [] cs else split_on sep (cur @ [c]) cs)"

definition path_parts :: "path \<Rightarrow> pystr list" where
  "path_parts p = filter (\<lambda>x. x \<noteq> [] \<and> x \<noteq> [dot]) (split_on slash [] p)"

definition path_root :: "path \<Rightarrow> pystr" where
  "path_root p =
     (if take 2 p = [slash, slash] \<and> take 3 p \<noteq> [slash, slash, slash] then [slash, slash]
      else if take 1 p = [slash] then [slash]
      else [])"

definition path_str :: "pystr \<Rightarrow> pystr list \<Rightarrow> path" where
  "path_str root parts = (if root = [] \<and> parts = [] then [dot] else root @ join [slash] parts)"

definition path_child :: "path \<Rightarrow> pystr \<Rightarrow> path" where
  "path_child d name = path_str (path_root d) (path_parts d @ [name])"

definition path_key :: "path \<Rightarrow> pystr list" where
  "path_key p = path_root p # path_parts p"

text \<open>
  \<^verbatim>\<open>sorted(Path(d).glob("*" + ext))\<close>: the entries of \<open>d\<close> whose name ends with \<open>ext\<close>, as
  paths, sorted.
\<close>

definition sorted_glob :: "'w os \<Rightarrow> path \<Rightarrow> pystr \<Rightarrow> ('w, path list) io" where
  "sorted_glob os d ext =
     observe (\<lambda>w. case scandir os d w of
        Inl e \<Rightarrow> Inl e
      | Inr names \<Rightarrow> Inr (sort_key path_key (map (path_child d) (filter (suffix ext) names))))"

section \<open>Host Runner\<close>

record scan_result =
  host :: pystr
  report_path :: "path option"
  log_path :: "path option"
  detected :: bool

text \<open>
  The enumeration of lines 136 and 137:
  \<^verbatim>\<open>[str(p.resolve()) for p in Path(host_dir).rglob("*") if p.is_file() and p.suffix.lower() == ".evtx"]\<close>.
  \<open>rglob\<close> yields the paths in the order of the file system.
\<close>

fun collect_evtx :: "'w os \<Rightarrow> 'w \<Rightarrow> path list \<Rightarrow> exc + path list" where
  "collect_evtx os w [] = Inr []"
| "collect_evtx os w (p # ps) =
     (case is_file os p w of
        Inl e \<Rightarrow> Inl e
      | Inr isf \<Rightarrow>
          if isf \<and> lower (path_suffix p) = py ''.evtx'' then
            (case resolve os p w of
               Inl e \<Rightarrow> Inl e
             | Inr q \<Rightarrow> (case collect_evtx os w ps of Inl e \<Rightarrow> Inl e | Inr qs \<Rightarrow> Inr (q # qs)))
          else collect_evtx os w ps)"

definition enumerate_evtx :: "'w os \<Rightarrow> path \<Rightarrow> 'w \<Rightarrow> exc + path list" where
  "enumerate_evtx os host_dir w =
     (case rglob os host_dir w of Inl e \<Rightarrow> Inl e | Inr ps \<Rightarrow> collect_evtx os w ps)"

text \<open>Lines 127 to 144, which run before the \<^verbatim>\<open>try\<close> of line 146.\<close>

record run_ctx =
  ctx_host :: pystr
  ctx_out_dir :: path
  ctx_log_path :: path
  ctx_evtx_files :: "path list"
  ctx_rules_dir :: path
  ctx_temp_rules_dir :: "path option"

definition prepare :: "'w os \<Rightarrow> config \<Rightarrow> path \<Rightarrow> ('w, run_ctx) io" where
  "prepare os cfg host_dir =
     (\<lambda>(w, tr).
        let host = basename (rstrip_slash host_dir);
            ts = strftime_now os w;
            out_dir = path_join (REPORTS_DIR cfg) (host @ py ''-'' @ ts);
            log_path = path_join out_dir (host @ py ''-'' @ ts @ py ''.log'')
        in bind_io (effect (EvMakedirs out_dir) (makedirs os out_dir)) (\<lambda>_.
           bind_io (observe (enumerate_evtx os host_dir)) (\<lambda>evtx_files.
           bind_io (if CHAINS_RULE_DIR cfg = []
                    then bind_io (do_mkdtemp os (py ''chainsaw_rules_'')) (\<lambda>d. return_io (d, Some d))
                    else return_io (CHAINS_RULE_DIR cfg, None)) (\<lambda>(rules_dir, temp_rules_dir).
           return_io \<lparr>ctx_host = host, ctx_out_dir = out_dir, ctx_log_path = log_path,
                      ctx_evtx_files = evtx_files, ctx_rules_dir = rules_dir,
                      ctx_temp_rules_dir = temp_rules_dir\<rparr>))) (w, tr))"

text \<open>The header of the log file (lines 151 to 163), one string per \<^verbatim>\<open>lf.write\<close>.\<close>

definition log_header :: "'w os \<Rightarrow> config \<Rightarrow> path \<Rightarrow> run_ctx \<Rightarrow> 'w \<Rightarrow> pystr list" where
  "log_header os cfg host_dir ctx w =
     [py ''# started: '' @ isoformat_now os w @ nl,
      py ''# host_dir: '' @ host_dir @ nl,
      py ''# levels: '' @ (if CHAINS_LEVELS cfg \<noteq> [] then join (py '','') (CHAINS_LEVELS cfg) else py ''ALL'') @ nl,
      py ''# mode: '' @ CHAINS_MODE cfg @ py '', format: '' @ CHAINS_FORMAT cfg @ nl,
      py ''# output_dir: '' @ ctx_out_dir ctx @ nl,
      py ''# rules_dir: '' @ ctx_rules_dir ctx @ nl,
      py ''# target files:'' @ nl]
     @ (if ctx_evtx_files ctx \<noteq> [] then map (\<lambda>f. py ''#   '' @ f @ nl) (ctx_evtx_files ctx)
        else [py ''#   (none found)'' @ nl])
     @ [py ''# target count: '' @ str_nat (length (ctx_evtx_files ctx)) @ nl @ nl]"

fun write_all :: "'w os \<Rightarrow> path \<Rightarrow> pystr list \<Rightarrow> ('w, unit) io" where
  "write_all os lp [] = return_io ()"
| "write_all os lp (s # ss) =
     bind_io (effect (EvWrite lp s) (write_text os lp s)) (\<lambda>_. write_all os lp ss)"

text \<open>The two loops over the input files (lines 169 to 172 and 224 to 226).\<close>

fun run_files_verbose :: "'w os \<Rightarrow> config \<Rightarrow> run_ctx \<Rightarrow> path list \<Rightarrow> ('w, unit) io" where
  "run_files_verbose os cfg ctx [] = return_io ()"
| "run_files_verbose os cfg ctx (f # fs) =
     (let cmd = build_hunt_cmd_for_file cfg f (ctx_out_dir ctx) (ctx_rules_dir ctx) True in
      bind_io (effect (EvWrite (ctx_log_path ctx) (py ''# cmd: '' @ join (py '' '') cmd @ nl))
                 (write_text os (ctx_log_path ctx) (py ''# cmd: '' @ join (py '' '') cmd @ nl))) (\<lambda>_.
      bind_io (effect (EvRun cmd (Some (ctx_log_path ctx)))
                 (subprocess_run os cmd (Some (ctx_log_path ctx)))) (\<lambda>_.
      run_files_verbose os cfg ctx fs)))"

fun run_files_quiet :: "'w os \<Rightarrow> config \<Rightarrow> run_ctx \<Rightarrow> path list \<Rightarrow> ('w, unit) io" where
  "run_files_quiet os cfg ctx [] = return_io ()"
| "run_files_quiet os cfg ctx (f # fs) =
     (let cmd = build_hunt_cmd_for_file cfg f (ctx_out_dir ctx) (ctx_rules_dir ctx) False in
      bind_io (effect (EvRun cmd None) (subprocess_run os cmd None)) (\<lambda>_.
      run_files_quiet os cfg ctx fs))"

text \<open>
  The detection loops (lines 180 to 189 and 191 to 198, repeated at 230 to 248). An
  exception of \<^verbatim>\<open>read_text\<close> is caught inside the loop, which goes on with the next file.
\<close>

definition rows :: "pystr \<Rightarrow> pystr list" where
  "rows text = filter (\<lambda>ln. strip ln \<noteq> []) (splitlines text)"

fun detect_csv :: "'w os \<Rightarrow> path list \<Rightarrow> 'w state \<Rightarrow> (bool \<times> path option) \<times> 'w state" where
  "detect_csv os [] st = ((False, None), st)"
| "detect_csv os (cf # cfs) st =
     (case do_read_text os cf st of
        (Inl e, st') \<Rightarrow> detect_csv os cfs st'
      | (Inr text, st') \<Rightarrow>
          if length (rows text) > 1 then ((True, Some cf), st') else detect_csv os cfs st')"

fun detect_json :: "'w os \<Rightarrow> path list \<Rightarrow> 'w state \<Rightarrow> (bool \<times> path option) \<times> 'w state" where
  "detect_json os [] st = ((False, None), st)"
| "detect_json os (jf # jfs) st =
     (case do_read_text os jf st of
        (Inl e, st') \<Rightarrow> detect_json os jfs st'
      | (Inr text, st') \<Rightarrow>
          if strip text \<noteq> [] then ((True, Some jf), st') else detect_json os jfs st')"

definition detect_log :: "'w os \<Rightarrow> path \<Rightarrow> 'w state \<Rightarrow> (bool \<times> path option) \<times> 'w state" where
  "detect_log os lp st =
     (case do_read_text os lp st of
        (Inl e, st') \<Rightarrow> ((False, None), st')
      | (Inr content, st') \<Rightarrow>
          ((sublist (py ''DETECTED'') content \<or> sublist (py ''Matches:'') content, None), st'))"

text \<open>Lines 175 to 205: the detection check of the branch that writes a log.\<close>

definition detection_verbose :: "'w os \<Rightarrow> config \<Rightarrow> run_ctx \<Rightarrow> ('w, bool \<times> path option) io" where
  "detection_verbose os cfg ctx =
     (if CHAINS_FORMAT cfg = py ''csv'' then
        bind_io (sorted_glob os (ctx_out_dir ctx) (py ''.csv'')) (\<lambda>cfs st. case detect_csv os cfs st of (r, st') \<Rightarrow> (Inr r, st'))
      else if CHAINS_FORMAT cfg = py ''json'' then
        bind_io (sorted_glob os (ctx_out_dir ctx) (py ''.json'')) (\<lambda>jfs st. case detect_json os jfs st of (r, st') \<Rightarrow> (Inr r, st'))
      else (\<lambda>st. case detect_log os (ctx_log_path ctx) st of (r, st') \<Rightarrow> (Inr r, st')))"

text \<open>Lines 219 to 251: the detection check of the quiet branch.\<close>

definition detection_quiet :: "'w os \<Rightarrow> config \<Rightarrow> run_ctx \<Rightarrow> ('w, bool \<times> path option) io" where
  "detection_quiet os cfg ctx =
     (if CHAINS_FORMAT cfg = py ''csv'' then
        bind_io (sorted_glob os (ctx_out_dir ctx) (py ''.csv'')) (\<lambda>cfs st. case detect_csv os cfs st of (r, st') \<Rightarrow> (Inr r, st'))
      else if CHAINS_FORMAT cfg = py ''json'' then
        bind_io (sorted_glob os (ctx_out_dir ctx) (py ''.json'')) (\<lambda>jfs st. case detect_json os jfs st of (r, st') \<Rightarrow> (Inr r, st'))
      else return_io (False, None))"

definition or_else :: "path option \<Rightarrow> pystr \<Rightarrow> pystr" where
  "or_else p dflt = (case p of None \<Rightarrow> dflt | Some s \<Rightarrow> if s = [] then dflt else s)"

definition status_of :: "bool \<Rightarrow> pystr" where
  "status_of d = (if d then py ''DETECTED'' else py ''CLEAN'')"

text \<open>
  Lines 147 to 215: the body of the \<^verbatim>\<open>try\<close> when \<open>QUIET\<close> is false. \<open>invoke_verbose\<close> is
  the \<^verbatim>\<open>with\<close> block of lines 149 to 172, which writes the log and runs the SCANNER.
\<close>

definition invoke_verbose :: "'w os \<Rightarrow> config \<Rightarrow> path \<Rightarrow> run_ctx \<Rightarrow> ('w, unit) io" where
  "invoke_verbose os cfg host_dir ctx =
     bind_io (effect (EvOpen (ctx_log_path ctx)) (open_w os (ctx_log_path ctx))) (\<lambda>_.
     bind_io (\<lambda>(w, tr). write_all os (ctx_log_path ctx) (log_header os cfg host_dir ctx w) (w, tr)) (\<lambda>_.
     if ctx_evtx_files ctx = []
     then effect (EvWrite (ctx_log_path ctx) (py ''# skipped: no .evtx found'' @ nl))
            (write_text os (ctx_log_path ctx) (py ''# skipped: no .evtx found'' @ nl))
     else run_files_verbose os cfg ctx (ctx_evtx_files ctx)))"

definition body_verbose :: "'w os \<Rightarrow> config \<Rightarrow> path \<Rightarrow> run_ctx \<Rightarrow> ('w, scan_result) io" where
  "body_verbose os cfg host_dir ctx =
     bind_io (invoke_verbose os cfg host_dir ctx) (\<lambda>_.
     bind_io (detection_verbose os cfg ctx) (\<lambda>(detected, report_path).
     bind_io (emit (EvStdout (py ''['' @ status_of detected @ py ''] '' @ ctx_host ctx @ py '' -> ''
                @ or_else report_path (py ''(no report file)'')
                @ py '' (log: '' @ ctx_log_path ctx @ py '')''))) (\<lambda>_.
     return_io \<lparr>host = ctx_host ctx, report_path = report_path,
                log_path = Some (ctx_log_path ctx), detected = detected\<rparr>)))"

text \<open>
  Lines 217 to 260: the body of the \<^verbatim>\<open>try\<close> when \<open>QUIET\<close> is true. \<open>invoke_quiet\<close> is the
  loop of lines 223 to 226.
\<close>

definition invoke_quiet :: "'w os \<Rightarrow> config \<Rightarrow> run_ctx \<Rightarrow> ('w, unit) io" where
  "invoke_quiet os cfg ctx =
     (if ctx_evtx_files ctx \<noteq> [] then run_files_quiet os cfg ctx (ctx_evtx_files ctx)
      else return_io ())"

definition body_quiet :: "'w os \<Rightarrow> config \<Rightarrow> path \<Rightarrow> run_ctx \<Rightarrow> ('w, scan_result) io" where
  "body_quiet os cfg host_dir ctx =
     bind_io (invoke_quiet os cfg ctx) (\<lambda>_.
     bind_io (detection_quiet os cfg ctx) (\<lambda>(detected, report_path).
     bind_io (emit (EvStdout (py ''['' @ status_of detected @ py ''] '' @ ctx_host ctx @ py '' -> ''
                @ or_else report_path (py ''(no report file)'')))) (\<lambda>_.
     return_io \<lparr>host = ctx_host ctx, report_path = report_path,
                log_path = (if QUIET cfg then None else Some (ctx_log_path ctx)),
                detected = detected\<rparr>)))"

definition guarded :: "'w os \<Rightarrow> config \<Rightarrow> path \<Rightarrow> run_ctx \<Rightarrow> ('w, scan_result) io" where
  "guarded os cfg host_dir ctx =
     (if \<not> QUIET cfg then body_verbose os cfg host_dir ctx else body_quiet os cfg host_dir ctx)"

text \<open>Lines 262 to 269 and 270 to 273: the handler and the \<^verbatim>\<open>finally\<close> clause.\<close>

definition str_exc :: "exc \<Rightarrow> pystr" where
  "str_exc e = (case e of Exc msg \<Rightarrow> msg)"

definition handler :: "config \<Rightarrow> run_ctx \<Rightarrow> exc \<Rightarrow> ('w, scan_result) io" where
  "handler cfg ctx e =
     bind_io (emit (EvStderr (py ''[ERROR] '' @ ctx_host ctx @ py '': '' @ str_exc e))) (\<lambda>_.
     return_io \<lparr>host = ctx_host ctx, report_path = None,
                log_path = (if QUIET cfg then None else Some (ctx_log_path ctx)),
                detected = False\<rparr>)"

definition cleanup :: "'w os \<Rightarrow> run_ctx \<Rightarrow> 'w state \<Rightarrow> 'w state" where
  "cleanup os ctx =
     (\<lambda>(w, tr). case ctx_temp_rules_dir ctx of
        None \<Rightarrow> (w, tr)
      | Some d \<Rightarrow> if d \<noteq> [] \<and> isdir os d w then (rmtree os d w, tr @ [EvRmtree d]) else (w, tr))"

definition run_for_host :: "'w os \<Rightarrow> config \<Rightarrow> path \<Rightarrow> ('w, scan_result) io" where
  "run_for_host os cfg host_dir =
     bind_io (prepare os cfg host_dir) (\<lambda>ctx.
       try_finally (try_except (guarded os cfg host_dir ctx) (handler cfg ctx)) (cleanup os ctx))"


section \<open>Notifier\<close>

text \<open>
  \<^verbatim>\<open>send_mail\<close> (lines 277 to 300). The event \<open>EvSendMail\<close> records the call itself; the SMTP
  dialogue is one list of commands handed to the server, and the MIME message is given by
  its subject and body.
\<close>

definition warn_text :: pystr where
  "warn_text = py ''[WARN] SMTP/MAIL '' @ [0x306E, 0x8A2D, 0x5B9A, 0x304C, 0x4E0D, 0x5341, 0x5206,
     0x306E, 0x305F, 0x3081, 0x30E1, 0x30FC, 0x30EB, 0x306F, 0x9001, 0x4FE1, 0x3055, 0x308C,
     0x307E, 0x305B, 0x3093, 0x3002]"

definition send_mail :: "'w os \<Rightarrow> config \<Rightarrow> pystr \<Rightarrow> pystr \<Rightarrow> ('w, unit) io" where
  "send_mail os cfg subject body =
     bind_io (emit (EvSendMail subject body)) (\<lambda>_.
       if \<not> (SMTP_HOST cfg \<noteq> [] \<and> MAIL_FROM cfg \<noteq> [] \<and> MAIL_TO cfg \<noteq> []) then
         emit (EvStderr warn_text)
       else
         (let login = (if SMTP_USER cfg \<noteq> [] \<and> SMTP_PASS cfg \<noteq> []
                       then [Login (SMTP_USER cfg) (SMTP_PASS cfg)] else []);
              send = [Sendmail (MAIL_FROM cfg) (MAIL_TO cfg) subject body];
              cmds = (if SMTP_TLS cfg
                      then [Connect (SMTP_HOST cfg) (SMTP_PORT cfg), Ehlo, StartTLS, Ehlo] @ login @ send
                      else [Connect (SMTP_HOST cfg) (SMTP_PORT cfg)] @ login @ send)
          in effect (EvSmtp cmds) (smtp os cmds)))"

section \<open>Orchestrator\<close>

text \<open>
  \<^verbatim>\<open>main\<close> (lines 304 to 339). The pool of four workers is modelled by running the hosts
  one after the other, in the order of the listing; the threads share nothing but the
  list of results. When a call of \<^verbatim>\<open>run_for_host\<close> raises, \<^verbatim>\<open>fut.result()\<close> raises in \<^verbatim>\<open>main\<close>:
  the pool still runs the hosts that are left, their results are dropped, and the
  exception leaves \<^verbatim>\<open>main\<close>.
\<close>

datatype outcome = Returned | Exited nat | Raised exc

definition str_opt :: "path option \<Rightarrow> pystr" where
  "str_opt p = (case p of None \<Rightarrow> py ''None'' | Some s \<Rightarrow> s)"

fun run_hosts :: "'w os \<Rightarrow> config \<Rightarrow> path list \<Rightarrow> 'w state \<Rightarrow> (exc + scan_result list) \<times> 'w state" where
  "run_hosts os cfg [] st = (Inr [], st)"
| "run_hosts os cfg (d # ds) st =
     (case run_for_host os cfg d st of
        (Inl e, st1) \<Rightarrow> (Inl e, snd (run_hosts os cfg ds st1))
      | (Inr res, st1) \<Rightarrow>
          (case run_hosts os cfg ds
                  (snd (emit (EvStdout (py ''['' @ status_of (detected res) @ py ''] '' @ host res
                                         @ py '' -> '' @ str_opt (report_path res))) st1)) of
             (Inl e, st2) \<Rightarrow> (Inl e, st2)
           | (Inr rs, st2) \<Rightarrow> (Inr (res # rs), st2)))"

text \<open>Lines 322 to 339: the summary and the notification.\<close>

definition summary_lines :: "config \<Rightarrow> scan_result list \<Rightarrow> pystr list" where
  "summary_lines cfg detected_hosts =
     [py ''Chainsaw '' @ [0x691C, 0x51FA, 0x7D50, 0x679C, 0x30B5, 0x30DE, 0x30EA],
      [0x5BFE, 0x8C61, 0x30E2, 0x30FC, 0x30C9] @ py '': '' @ CHAINS_MODE cfg @ py '', ''
        @ [0x30D5, 0x30A9, 0x30FC, 0x30DE, 0x30C3, 0x30C8] @ py '': '' @ CHAINS_FORMAT cfg]
     @ (if CHAINS_LEVELS cfg \<noteq> []
        then [[0x30EC, 0x30D9, 0x30EB, 0x30D5, 0x30A3, 0x30EB, 0x30BF] @ py '': ''
                @ join (py '','') (CHAINS_LEVELS cfg)]
        else [])
     @ (if FROM cfg \<noteq> [] \<or> TO cfg \<noteq> []
        then [[0x671F, 0x9593] @ py '': '' @ (if FROM cfg \<noteq> [] then FROM cfg else py ''-'')
                @ py '' '' @ [0xFF5E] @ py '' '' @ (if TO cfg \<noteq> [] then TO cfg else py ''-'')]
        else [])
     @ [[]]
     @ map (\<lambda>r. py ''- '' @ host r @ py '': '' @ or_else (report_path r) (py ''(report not found)''))
         detected_hosts"

definition info_text :: pystr where
  "info_text = py ''[INFO] '' @ [0x691C, 0x51FA, 0x306F, 0x3042, 0x308A, 0x307E, 0x305B, 0x3093,
     0x3067, 0x3057, 0x305F, 0x3002, 0x30E1, 0x30FC, 0x30EB, 0x306F, 0x9001, 0x4FE1, 0x3055,
     0x308C, 0x307E, 0x305B, 0x3093, 0x3002]"

definition notify :: "'w os \<Rightarrow> config \<Rightarrow> scan_result list \<Rightarrow> ('w, unit) io" where
  "notify os cfg results =
     (let detected_hosts = filter detected results in
      if detected_hosts \<noteq> [] then
        (let body = join nl (summary_lines cfg detected_hosts);
             subject = MAIL_SUBJECT_PREFIX cfg @ py '' '' @ str_nat (length detected_hosts)
                         @ py '' host(s) detected''
         in send_mail os cfg subject body)
      else emit (EvStdout info_text))"

definition no_host_text :: pystr where
  "no_host_text = [0x30DB, 0x30B9, 0x30C8, 0x30C7, 0x30A3, 0x30EC, 0x30AF, 0x30C8, 0x30EA, 0x304C,
     0x898B, 0x3064, 0x304B, 0x308A, 0x307E, 0x305B, 0x3093] @ py '': ''"

definition main :: "'w os \<Rightarrow> config \<Rightarrow> 'w state \<Rightarrow> outcome \<times> 'w state" where
  "main os cfg =
     (\<lambda>(w, tr). case listdir os (EVTX_ROOT cfg) w of
        Inl e \<Rightarrow> (Raised e, (w, tr))
      | Inr names \<Rightarrow>
          (let host_dirs = map (path_join (EVTX_ROOT cfg))
                             (filter (\<lambda>d. isdir os (path_join (EVTX_ROOT cfg) d) w) names)
           in if host_dirs = [] then
                (Exited 1, (w, tr @ [EvStderr (py ''[ERROR] '' @ no_host_text @ EVTX_ROOT cfg @ py ''/*'')]))
              else
                (case run_hosts os cfg host_dirs (w, tr) of
                   (Inl e, st) \<Rightarrow> (Raised e, st)
                 | (Inr results, st) \<Rightarrow>
                     (case notify os cfg results st of
                        (Inl e, st') \<Rightarrow> (Raised e, st')
                      | (Inr _, st') \<Rightarrow> (Returned, st')))))"

section \<open>A small environment to run the model in\<close>

text \<open>
  A world for concrete runs: the regular files with their contents, the directories, and a
  counter for temporary names. The clock stands still. \<open>sim_os scanner\<close> never raises
  except where a file that is read does not exist; \<open>scanner\<close> is what the SCANNER does
  to the files when it is given a command line and, in the branch that writes one, the
  log file its output goes to.
\<close>

record sim =
  sim_files :: "(path \<times> pystr) list"
  sim_dirs :: "path list"

definition child_name :: "path \<Rightarrow> path \<Rightarrow> pystr option" where
  "child_name d p =
     (if prefix (d @ [slash]) p \<and> slash \<notin> set (drop (Suc (length d)) p) \<and> Suc (length d) < length p
      then Some (drop (Suc (length d)) p) else None)"

definition sim_write :: "path \<Rightarrow> pystr \<Rightarrow> (path \<times> pystr) list \<Rightarrow> (path \<times> pystr) list" where
  "sim_write p s fs =
     (if p \<in> set (map fst fs) then map (\<lambda>(q, c). if q = p then (q, c @ s) else (q, c)) fs
      else fs @ [(p, s)])"

type_synonym scanner = "pystr list \<Rightarrow> path option \<Rightarrow> (path \<times> pystr) list \<Rightarrow> exc + (path \<times> pystr) list"

definition sim_os :: "scanner \<Rightarrow> sim os" where
  "sim_os scanner =
     \<lparr>strftime_now = (\<lambda>w. py ''20240101120000''),
      isoformat_now = (\<lambda>w. py ''2024-01-01T12:00:00''),
      makedirs = (\<lambda>p w. Inr (w\<lparr>sim_dirs := sim_dirs w @ [p]\<rparr>)),
      rglob = (\<lambda>d w. Inr (filter (prefix (rstrip_slash d @ [slash])) (map fst (sim_files w)))),
      is_file = (\<lambda>p w. Inr (p \<in> set (map fst (sim_files w)))),
      resolve = (\<lambda>p w. Inr p),
      mkdtemp = (\<lambda>pfx w. Inr (py ''/tmp/'' @ pfx @ py ''0'',
                   w\<lparr>sim_dirs := sim_dirs w @ [py ''/tmp/'' @ pfx @ py ''0'']\<rparr>)),
      open_w = (\<lambda>p w. Inr (w\<lparr>sim_files := filter (\<lambda>(q, c). q \<noteq> p) (sim_files w) @ [(p, [])]\<rparr>)),
      write_text = (\<lambda>p s w. Inr (w\<lparr>sim_files := sim_write p s (sim_files w)\<rparr>)),
      subprocess_run = (\<lambda>cmd lp w. case scanner cmd lp (sim_files w) of
                          Inl e \<Rightarrow> Inl e
                        | Inr fs \<Rightarrow> Inr (w\<lparr>sim_files := fs\<rparr>)),
      scandir = (\<lambda>d w. Inr (List.map_filter (child_name d) (map fst (sim_files w)))),
      read_text = (\<lambda>p w. case map_of (sim_files w) p of
                     None \<Rightarrow> Inl (Exc (py ''No such file'')) | Some c \<Rightarrow> Inr c),
      isdir = (\<lambda>p w. p \<in> set (sim_dirs w)),
      rmtree = (\<lambda>p w. w\<lparr>sim_dirs := filter (\<lambda>q. q \<noteq> p) (sim_dirs w)\<rparr>),
      listdir = (\<lambda>d w. Inr (List.map_filter (child_name d) (sim_dirs w))),
      smtp = (\<lambda>cmds w. Inr w)\<rparr>"

definition cfg0 :: config where
  "cfg0 =
     \<lparr>EVTX_ROOT = py ''/workspace/evtx'', REPORTS_DIR = py ''/workspace/reports'',
      CHAINS_MODE = py ''hunt'', CHAINS_FORMAT = py ''csv'', CHAINS_LEVELS = [],
      SIGMA_DIR = py ''/sigma'', MAPPING_YML = py ''/mapping.yml'', CHAINS_RULE_DIR = [],
      QUIET = True, LOCAL_TIME = True, TIMEZONE = [], FROM = [], TO = [],
      EXTENSIONS = [py ''.evtx''],
      SMTP_HOST = [], SMTP_PORT = 587, SMTP_TLS = True, SMTP_USER = [], SMTP_PASS = [],
      MAIL_FROM = [], MAIL_TO = [], MAIL_SUBJECT_PREFIX = py ''[Chainsaw Detection]''\<rparr>"

section \<open>Auxiliary notions for the statements\<close>

text \<open>
  The flag the builder writes for the output format and for the time zone, and the
  strings it copies unchanged from its configuration and its arguments.
\<close>

definition time_flags :: "config \<Rightarrow> pystr list" where
  "time_flags cfg =
     (if LOCAL_TIME cfg then [py ''--local'']
      else if TIMEZONE cfg \<noteq> [] then [py ''--timezone'', TIMEZONE cfg] else [])"

definition format_flag :: "config \<Rightarrow> pystr" where
  "format_flag cfg =
     (if CHAINS_FORMAT cfg = py ''csv'' then py ''--csv''
      else if CHAINS_FORMAT cfg = py ''json'' then py ''--json''
      else if CHAINS_FORMAT cfg = py ''log'' then py ''--log''
      else py ''--csv'')"

definition passed_values :: "config \<Rightarrow> path \<Rightarrow> path \<Rightarrow> path \<Rightarrow> pystr list" where
  "passed_values cfg evtx_file output_dir rules_dir =
     [MAPPING_YML cfg, output_dir, SIGMA_DIR cfg] @ CHAINS_LEVELS cfg
     @ [TIMEZONE cfg, rules_dir, FROM cfg, TO cfg, evtx_file]"

text \<open>
  Events are sorted into kinds for the statements: \<open>host_event runs\<close> holds of what the
  Host Runner may emit, a SCANNER run only when \<open>runs\<close> is true, and never of a call of
  the Notifier. \<open>emits P m\<close> says that every event the action \<open>m\<close> adds to the trace
  satisfies \<open>P\<close>.
\<close>

definition host_event :: "bool \<Rightarrow> event \<Rightarrow> bool" where
  "host_event runs ev =
     (case ev of EvRun c l \<Rightarrow> runs | EvSendMail s b \<Rightarrow> False | EvSmtp cs \<Rightarrow> False | _ \<Rightarrow> True)"

definition emits :: "(event \<Rightarrow> bool) \<Rightarrow> ('w, 'a) io \<Rightarrow> bool" where
  "emits P m \<longleftrightarrow> (\<forall>w tr r w' tr'. m (w, tr) = (r, (w', tr')) \<longrightarrow> (\<exists>evs. tr' = tr @ evs \<and> list_all P evs))"

text \<open>
  A csv file counts when it can be read and has more than one non-blank line, a json file
  when it can be read and is not blank. \<open>inspected hit ps\<close> are the files of \<open>ps\<close> up to and
  including the first that counts, \<open>reads_of\<close> the reads of a list of files, and
  \<open>listed d ext names\<close> the sorted paths of the entries of \<open>d\<close> that end with \<open>ext\<close>.
\<close>

definition csv_hit :: "'w os \<Rightarrow> 'w \<Rightarrow> path \<Rightarrow> bool" where
  "csv_hit os w p = (case read_text os p w of Inl e \<Rightarrow> False | Inr text \<Rightarrow> 1 < length (rows text))"

definition json_hit :: "'w os \<Rightarrow> 'w \<Rightarrow> path \<Rightarrow> bool" where
  "json_hit os w p = (case read_text os p w of Inl e \<Rightarrow> False | Inr text \<Rightarrow> strip text \<noteq> [])"

definition inspected :: "(path \<Rightarrow> bool) \<Rightarrow> path list \<Rightarrow> path list" where
  "inspected hit ps = takeWhile (\<lambda>p. \<not> hit p) ps @ take 1 (dropWhile (\<lambda>p. \<not> hit p) ps)"

definition reads_of :: "'w os \<Rightarrow> 'w \<Rightarrow> path list \<Rightarrow> event list" where
  "reads_of os w ps = map (\<lambda>p. EvRead p (read_text os p w)) ps"

definition listed :: "path \<Rightarrow> pystr \<Rightarrow> pystr list \<Rightarrow> path list" where
  "listed d ext names = sort_key path_key (map (path_child d) (filter (suffix ext) names))"

text \<open>
  The two branches of the \<^verbatim>\<open>try\<close> block have the same shape: run the SCANNER over the input
  files, decide the detection, print a status line, return the result.
\<close>

definition invoke :: "'w os \<Rightarrow> config \<Rightarrow> path \<Rightarrow> run_ctx \<Rightarrow> ('w, unit) io" where
  "invoke os cfg host_dir ctx =
     (if \<not> QUIET cfg then invoke_verbose os cfg host_dir ctx else invoke_quiet os cfg ctx)"

definition detection :: "'w os \<Rightarrow> config \<Rightarrow> run_ctx \<Rightarrow> ('w, bool \<times> path option) io" where
  "detection os cfg ctx =
     (if \<not> QUIET cfg then detection_verbose os cfg ctx else detection_quiet os cfg ctx)"

definition status_line :: "config \<Rightarrow> run_ctx \<Rightarrow> bool \<Rightarrow> path option \<Rightarrow> pystr" where
  "status_line cfg ctx d rp =
     py ''['' @ status_of d @ py ''] '' @ ctx_host ctx @ py '' -> '' @ or_else rp (py ''(no report file)'')
     @ (if \<not> QUIET cfg then py '' (log: '' @ ctx_log_path ctx @ py '')'' else [])"

definition result_of :: "config \<Rightarrow> run_ctx \<Rightarrow> bool \<Rightarrow> path option \<Rightarrow> scan_result" where
  "result_of cfg ctx d rp =
     \<lparr>host = ctx_host ctx, report_path = rp,
      log_path = (if QUIET cfg then None else Some (ctx_log_path ctx)), detected = d\<rparr>"

definition error_line :: "run_ctx \<Rightarrow> exc \<Rightarrow> pystr" where
  "error_line ctx e = py ''[ERROR] '' @ ctx_host ctx @ py '': '' @ str_exc e"

text \<open>
  \<open>out_dir_of\<close> is the output directory of lines 128 and 131, \<open>qualifies\<close> the test the
  detection check of the configured format applies to the text of a file it reads.
\<close>

definition is_run :: "event \<Rightarrow> bool" where
  "is_run ev = (case ev of EvRun c l \<Rightarrow> True | _ \<Rightarrow> False)"

definition is_read :: "event \<Rightarrow> bool" where
  "is_read ev = (case ev of EvRead p r \<Rightarrow> True | _ \<Rightarrow> False)"

definition out_dir_of :: "'w os \<Rightarrow> config \<Rightarrow> path \<Rightarrow> 'w \<Rightarrow> path" where
  "out_dir_of os cfg host_dir w =
     path_join (REPORTS_DIR cfg) (basename (rstrip_slash host_dir) @ py ''-'' @ strftime_now os w)"

definition qualifies :: "config \<Rightarrow> run_ctx \<Rightarrow> path \<Rightarrow> pystr \<Rightarrow> bool" where
  "qualifies cfg ctx p text =
     (if CHAINS_FORMAT cfg = py ''csv'' then 1 < length (rows text)
      else if CHAINS_FORMAT cfg = py ''json'' then strip text \<noteq> []
      else \<not> QUIET cfg \<and> p = ctx_log_path ctx
           \<and> (sublist (py ''DETECTED'') text \<or> sublist (py ''Matches:'') text))"

definition format_ext :: "config \<Rightarrow> pystr" where
  "format_ext cfg = (if CHAINS_FORMAT cfg = py ''csv'' then py ''.csv'' else py ''.json'')"

text \<open>
  The calls of the Notifier that a trace records, the lines of the summary that precede
  the hosts and the line of one host (line 333), and the host directories of line 306.
\<close>

fun send_mail_calls :: "event list \<Rightarrow> (pystr \<times> pystr) list" where
  "send_mail_calls [] = []"
| "send_mail_calls (EvSendMail s b # evs) = (s, b) # send_mail_calls evs"
| "send_mail_calls (ev # evs) = send_mail_calls evs"

definition summary_head :: "config \<Rightarrow> pystr list" where
  "summary_head cfg =
     [py ''Chainsaw '' @ [0x691C, 0x51FA, 0x7D50, 0x679C, 0x30B5, 0x30DE, 0x30EA],
      [0x5BFE, 0x8C61, 0x30E2, 0x30FC, 0x30C9] @ py '': '' @ CHAINS_MODE cfg @ py '', ''
        @ [0x30D5, 0x30A9, 0x30FC, 0x30DE, 0x30C3, 0x30C8] @ py '': '' @ CHAINS_FORMAT cfg]
     @ (if CHAINS_LEVELS cfg \<noteq> []
        then [[0x30EC, 0x30D9, 0x30EB, 0x30D5, 0x30A3, 0x30EB, 0x30BF] @ py '': ''
                @ join (py '','') (CHAINS_LEVELS cfg)]
        else [])
     @ (if FROM cfg \<noteq> [] \<or> TO cfg \<noteq> []
        then [[0x671F, 0x9593] @ py '': '' @ (if FROM cfg \<noteq> [] then FROM cfg else py ''-'')
                @ py '' '' @ [0xFF5E] @ py '' '' @ (if TO cfg \<noteq> [] then TO cfg else py ''-'')]
        else [])
     @ [[]]"

definition host_line :: "scan_result \<Rightarrow> pystr" where
  "host_line r = py ''- '' @ host r @ py '': '' @ or_else (report_path r) (py ''(report not found)'')"

definition host_dirs_of :: "'w os \<Rightarrow> config \<Rightarrow> 'w \<Rightarrow> pystr list \<Rightarrow> path list" where
  "host_dirs_of os cfg w names =
     map (path_join (EVTX_ROOT cfg)) (filter (\<lambda>d. isdir os (path_join (EVTX_ROOT cfg) d) w) names)"




section \<open>Concrete runs: the data\<close>

text \<open>
  Scanners, worlds and expected results for the runs that are evaluated further down.
  \<open>scanner_hit\<close> writes two csv reports with a header and one row into the directory given
  after \<^verbatim>\<open>--output\<close>, \<open>scanner_header\<close> one report with a header only, \<open>scanner_none\<close>
  nothing, and \<open>scanner_missing\<close> is a SCANNER binary that cannot be started.
  \<open>os_denied\<close> is an environment in which \<^verbatim>\<open>Path.is_file\<close> raises.
\<close>

definition scanner_none :: scanner where
  "scanner_none cmd lp fs = Inr fs"

definition hit_rows :: pystr where
  "hit_rows = py ''timestamp,detections'' @ nl @ py ''2024-01-01T09:30:00,Suspicious logon'' @ nl"

definition scanner_hit :: scanner where
  "scanner_hit cmd lp fs =
     Inr (sim_write (cmd ! 5 @ py ''/antivirus.csv'') hit_rows
           (sim_write (cmd ! 5 @ py ''/sigma.csv'') hit_rows fs))"


definition scanner_missing :: scanner where
  "scanner_missing cmd lp fs = Inl (Exc (py ''[Errno 2] No such file or directory: chainsaw''))"

definition evtxA :: path where
  "evtxA = py ''/workspace/evtx/HOST-A/Security.evtx''"

definition hdA :: path where
  "hdA = py ''/workspace/evtx/HOST-A''"

definition hdB :: path where
  "hdB = py ''/workspace/evtx/HOST-B''"

definition outA :: path where
  "outA = py ''/workspace/reports/HOST-A-20240101120000''"

definition tmp0 :: path where
  "tmp0 = py ''/tmp/chainsaw_rules_0''"

definition wA :: sim where
  "wA = \<lparr>sim_files = [(evtxA, [])], sim_dirs = [hdA, hdB]\<rparr>"

definition ctxA :: run_ctx where
  "ctxA = \<lparr>ctx_host = py ''HOST-A'', ctx_out_dir = outA,
      ctx_log_path = py ''/workspace/reports/HOST-A-20240101120000/HOST-A-20240101120000.log'',
      ctx_evtx_files = [evtxA], ctx_rules_dir = tmp0, ctx_temp_rules_dir = Some tmp0\<rparr>"

definition wA1 :: sim where
  "wA1 = \<lparr>sim_files = [(evtxA, [])], sim_dirs = [hdA, hdB, outA, tmp0]\<rparr>"

definition trA1 :: "event list" where
  "trA1 = [EvMakedirs outA, EvMkdtemp tmp0]"

definition cmdA :: "pystr list" where
  "cmdA = [py ''chainsaw'', py ''hunt'', py ''--mapping'', py ''/mapping.yml'', py ''--output'', outA,
           py ''--sigma'', py ''/sigma'', py ''--csv'', py ''--local'', py ''-r'', tmp0, py ''-q'', evtxA]"

definition sigmaA :: path where
  "sigmaA = py ''/workspace/reports/HOST-A-20240101120000/sigma.csv''"

definition antivirusA :: path where
  "antivirusA = py ''/workspace/reports/HOST-A-20240101120000/antivirus.csv''"

definition wA2 :: sim where
  "wA2 = \<lparr>sim_files = [(evtxA, []), (sigmaA, hit_rows), (antivirusA, hit_rows)],
         sim_dirs = [hdA, hdB, outA, tmp0]\<rparr>"

definition wA3 :: sim where
  "wA3 = \<lparr>sim_files = [(evtxA, []), (sigmaA, hit_rows), (antivirusA, hit_rows)],
         sim_dirs = [hdA, hdB, outA]\<rparr>"

definition resA :: scan_result where
  "resA = \<lparr>host = py ''HOST-A'', report_path = Some antivirusA, log_path = None, detected = True\<rparr>"

definition trA3 :: "event list" where
  "trA3 = [EvMakedirs outA, EvMkdtemp tmp0, EvRun cmdA None, EvRead antivirusA (Inr hit_rows),
     EvStdout (py ''[DETECTED] HOST-A -> /workspace/reports/HOST-A-20240101120000/antivirus.csv''),
     EvRmtree tmp0]"


definition resH :: scan_result where
  "resH = \<lparr>host = py ''HOST-A'', report_path = None, log_path = None, detected = False\<rparr>"

definition msg_missing :: pystr where
  "msg_missing = py ''[Errno 2] No such file or directory: chainsaw''"

definition trM3 :: "event list" where
  "trM3 = [EvMakedirs outA, EvMkdtemp tmp0, EvRun cmdA None,
     EvStderr (py ''[ERROR] HOST-A: [Errno 2] No such file or directory: chainsaw''), EvRmtree tmp0]"

definition wM3 :: sim where
  "wM3 = \<lparr>sim_files = [(evtxA, [])], sim_dirs = [hdA, hdB, outA]\<rparr>"




definition outB :: path where
  "outB = py ''/workspace/reports/HOST-B-20240101120000''"

definition ctxB :: run_ctx where
  "ctxB = \<lparr>ctx_host = py ''HOST-B'', ctx_out_dir = outB,
      ctx_log_path = py ''/workspace/reports/HOST-B-20240101120000/HOST-B-20240101120000.log'',
      ctx_evtx_files = [], ctx_rules_dir = tmp0, ctx_temp_rules_dir = Some tmp0\<rparr>"

definition wB1 :: sim where
  "wB1 = \<lparr>sim_files = [(evtxA, []), (sigmaA, hit_rows), (antivirusA, hit_rows)],
         sim_dirs = [hdA, hdB, outA, outB, tmp0]\<rparr>"

definition wB3 :: sim where
  "wB3 = \<lparr>sim_files = [(evtxA, []), (sigmaA, hit_rows), (antivirusA, hit_rows)],
         sim_dirs = [hdA, hdB, outA, outB]\<rparr>"

definition resB :: scan_result where
  "resB = \<lparr>host = py ''HOST-B'', report_path = None, log_path = None, detected = False\<rparr>"

definition evsB :: "event list" where
  "evsB = [EvMakedirs outB, EvMkdtemp tmp0, EvStdout (py ''[CLEAN] HOST-B -> (no report file)''),
           EvRmtree tmp0]"

definition trAB :: "event list" where
  "trAB = trA3 @ [EvStdout (py ''[DETECTED] HOST-A -> /workspace/reports/HOST-A-20240101120000/antivirus.csv'')]
          @ evsB @ [EvStdout (py ''[CLEAN] HOST-B -> None'')]"

definition hdD :: path where
  "hdD = py ''/workspace/evtx/DETECTED-LAB''"

definition outD :: path where
  "outD = py ''/workspace/reports/DETECTED-LAB-20240101120000''"

definition logD :: path where
  "logD = py ''/workspace/reports/DETECTED-LAB-20240101120000/DETECTED-LAB-20240101120000.log''"

definition wD :: sim where
  "wD = \<lparr>sim_files = [], sim_dirs = [hdD]\<rparr>"

definition cfgL :: config where
  "cfgL = cfg0\<lparr>QUIET := False, CHAINS_FORMAT := py ''log''\<rparr>"


definition ctxD :: run_ctx where
  "ctxD = \<lparr>ctx_host = py ''DETECTED-LAB'', ctx_out_dir = outD, ctx_log_path = logD,
      ctx_evtx_files = [], ctx_rules_dir = tmp0, ctx_temp_rules_dir = Some tmp0\<rparr>"

definition wD1 :: sim where
  "wD1 = \<lparr>sim_files = [], sim_dirs = [hdD, outD, tmp0]\<rparr>"

definition trD1 :: "event list" where
  "trD1 = [EvMakedirs outD, EvMkdtemp tmp0]"

definition headerD :: "pystr list" where
  "headerD =
     [py ''# started: 2024-01-01T12:00:00'' @ nl,
      py ''# host_dir: /workspace/evtx/DETECTED-LAB'' @ nl,
      py ''# levels: ALL'' @ nl,
      py ''# mode: hunt, format: log'' @ nl,
      py ''# output_dir: /workspace/reports/DETECTED-LAB-20240101120000'' @ nl,
      py ''# rules_dir: /tmp/chainsaw_rules_0'' @ nl,
      py ''# target files:'' @ nl,
      py ''#   (none found)'' @ nl,
      py ''# target count: 0'' @ nl @ nl]"

definition skipD :: pystr where
  "skipD = py ''# skipped: no .evtx found'' @ nl"

definition contentD :: pystr where
  "contentD = concat headerD @ skipD"

definition wD2 :: sim where
  "wD2 = \<lparr>sim_files = [(logD, contentD)], sim_dirs = [hdD, outD, tmp0]\<rparr>"

definition trD2 :: "event list" where
  "trD2 = trD1 @ [EvOpen logD] @ map (EvWrite logD) headerD @ [EvWrite logD skipD]"

definition resD :: scan_result where
  "resD = \<lparr>host = py ''DETECTED-LAB'', report_path = None, log_path = Some logD, detected = True\<rparr>"










section \<open>The Command Builder: claims C7 and C9\<close>

lemma foldl_levels:
  "foldl (\<lambda>cmd lv. cmd @ [py ''--level'', lv]) acc lvs = acc @ concat (map (\<lambda>lv. [py ''--level'', lv]) lvs)"
  by (induction lvs arbitrary: acc) simp_all

lemma build_cmd_segments:
  "build_hunt_cmd_for_file cfg evtx_file output_dir rules_dir force_non_quiet =
     [py ''chainsaw'', py ''hunt'', py ''--mapping'', MAPPING_YML cfg, py ''--output'', output_dir,
      py ''--sigma'', SIGMA_DIR cfg]
     @ [format_flag cfg]
     @ concat (map (\<lambda>lv. [py ''--level'', lv]) (CHAINS_LEVELS cfg))
     @ time_flags cfg
     @ [py ''-r'', rules_dir]
     @ (if FROM cfg \<noteq> [] then [py ''--from'', FROM cfg] else [])
     @ (if TO cfg \<noteq> [] then [py ''--to'', TO cfg] else [])
     @ (if QUIET cfg \<and> \<not> force_non_quiet then [py ''-q''] else [])
     @ [evtx_file]"
  by (simp add: build_hunt_cmd_for_file_def Let_def foldl_levels time_flags_def format_flag_def)

lemma length_concat_levels: "length (concat (map (\<lambda>lv. [py ''--level'', lv]) lvs)) = 2 * length lvs"
  by (induction lvs) simp_all

lemma set_concat_levels: "set (concat (map (\<lambda>lv. [py ''--level'', lv]) lvs)) = (if lvs = [] then {} else insert (py ''--level'') (set lvs))"
  by (induction lvs) auto

lemma nth_time_pos:
  "build_hunt_cmd_for_file cfg evtx_file output_dir rules_dir force_non_quiet ! (9 + 2 * length (CHAINS_LEVELS cfg))
     = hd (time_flags cfg @ [py ''-r''])"
proof -
  let ?pre = "[py ''chainsaw'', py ''hunt'', py ''--mapping'', MAPPING_YML cfg, py ''--output'', output_dir,
      py ''--sigma'', SIGMA_DIR cfg]
     @ [format_flag cfg]
     @ concat (map (\<lambda>lv. [py ''--level'', lv]) (CHAINS_LEVELS cfg))"
  have len: "length ?pre = 9 + 2 * length (CHAINS_LEVELS cfg)"
    by (simp add: length_concat_levels)
  have "build_hunt_cmd_for_file cfg evtx_file output_dir rules_dir force_non_quiet = ?pre @ (time_flags cfg @ [py ''-r'', rules_dir]
     @ (if FROM cfg \<noteq> [] then [py ''--from'', FROM cfg] else [])
     @ (if TO cfg \<noteq> [] then [py ''--to'', TO cfg] else [])
     @ (if QUIET cfg \<and> \<not> force_non_quiet then [py ''-q''] else [])
     @ [evtx_file])" (is "_ = ?pre @ ?post")
    by (simp add: build_cmd_segments)
  then have "build_hunt_cmd_for_file cfg evtx_file output_dir rules_dir force_non_quiet ! (9 + 2 * length (CHAINS_LEVELS cfg)) = ?post ! 0"
    using len by (metis add.right_neutral nth_append_length_plus)
  also have "\<dots> = hd (time_flags cfg @ [py ''-r''])"
    by (simp add: time_flags_def)
  finally show ?thesis .
qed

lemma time_pos_in_range:
  "9 + 2 * length (CHAINS_LEVELS cfg) < length (build_hunt_cmd_for_file cfg evtx_file output_dir rules_dir force_non_quiet)"
  by (simp add: build_cmd_segments length_concat_levels)

lemma format_flag_cases: "format_flag cfg \<in> {py ''--csv'', py ''--json'', py ''--log''}"
  by (simp add: format_flag_def)

lemma local_mem:
  assumes "py ''--local'' \<notin> set (passed_values cfg evtx_file output_dir rules_dir)"
  shows "py ''--local'' \<in> set (build_hunt_cmd_for_file cfg evtx_file output_dir rules_dir force_non_quiet) \<longleftrightarrow> LOCAL_TIME cfg"
  using assms
  using format_flag_cases [of cfg] by (auto simp add: build_cmd_segments set_concat_levels passed_values_def time_flags_def py_def)

lemma tz_mem:
  assumes "py ''--timezone'' \<notin> set (passed_values cfg evtx_file output_dir rules_dir)"
  shows "py ''--timezone'' \<in> set (build_hunt_cmd_for_file cfg evtx_file output_dir rules_dir force_non_quiet) \<longleftrightarrow> \<not> LOCAL_TIME cfg \<and> TIMEZONE cfg \<noteq> []"
  using assms
  using format_flag_cases [of cfg] by (auto simp add: build_cmd_segments set_concat_levels passed_values_def time_flags_def py_def)

text \<open>
  Claim C7. The builder writes its time flag directly after the level pairs, at index
  \<open>9 + 2 * length (CHAINS_LEVELS cfg)\<close> of the argument vector: that argument is \<^verbatim>\<open>--local\<close>
  exactly when local time is enabled, and \<^verbatim>\<open>--timezone\<close> exactly when a time zone is
  configured and local time is disabled. The values of the configuration and the
  arguments are copied unchanged; when none of them is itself spelled \<^verbatim>\<open>--local\<close> or
  \<^verbatim>\<open>--timezone\<close>, the vector contains \<^verbatim>\<open>--local\<close> iff local time is enabled, contains
  \<^verbatim>\<open>--timezone\<close> iff a time zone is configured and local time is disabled, and never
  contains both.
\<close>

theorem build_cmd_time_flags:
  fixes cfg evtx_file output_dir rules_dir force_non_quiet
  defines "cmd \<equiv> build_hunt_cmd_for_file cfg evtx_file output_dir rules_dir force_non_quiet"
    and "k \<equiv> 9 + 2 * length (CHAINS_LEVELS cfg)"
    and "vals \<equiv> passed_values cfg evtx_file output_dir rules_dir"
  shows "k < length cmd \<and>
         (cmd ! k = py ''--local'' \<longleftrightarrow> LOCAL_TIME cfg) \<and>
         (cmd ! k = py ''--timezone'' \<longleftrightarrow> \<not> LOCAL_TIME cfg \<and> TIMEZONE cfg \<noteq> []) \<and>
         (py ''--local'' \<notin> set vals \<and> py ''--timezone'' \<notin> set vals \<longrightarrow>
            (py ''--local'' \<in> set cmd \<longleftrightarrow> LOCAL_TIME cfg) \<and>
            (py ''--timezone'' \<in> set cmd \<longleftrightarrow> \<not> LOCAL_TIME cfg \<and> TIMEZONE cfg \<noteq> []) \<and>
            \<not> (py ''--local'' \<in> set cmd \<and> py ''--timezone'' \<in> set cmd))"
proof -
  have "k < length cmd"
    unfolding cmd_def k_def by (rule time_pos_in_range)
  moreover have "cmd ! k = py ''--local'' \<longleftrightarrow> LOCAL_TIME cfg"
    unfolding cmd_def k_def by (simp add: nth_time_pos time_flags_def py_def)
  moreover have "cmd ! k = py ''--timezone'' \<longleftrightarrow> \<not> LOCAL_TIME cfg \<and> TIMEZONE cfg \<noteq> []"
    unfolding cmd_def k_def by (simp add: nth_time_pos time_flags_def py_def)
  moreover have "py ''--local'' \<notin> set vals \<longrightarrow> (py ''--local'' \<in> set cmd \<longleftrightarrow> LOCAL_TIME cfg)"
    unfolding cmd_def vals_def by (simp add: local_mem)
  moreover have "py ''--timezone'' \<notin> set vals \<longrightarrow>
      (py ''--timezone'' \<in> set cmd \<longleftrightarrow> \<not> LOCAL_TIME cfg \<and> TIMEZONE cfg \<noteq> [])"
    unfolding cmd_def vals_def by (simp add: tz_mem)
  ultimately show ?thesis by blast
qed

theorem build_cmd_time_flags_witness:
  "py ''--local'' \<notin> set (passed_values cfg0 (py ''/workspace/evtx/HOST-A/Security.evtx'') (py ''/out'') (py ''/rules''))
   \<and> py ''--timezone'' \<notin> set (passed_values cfg0 (py ''/workspace/evtx/HOST-A/Security.evtx'') (py ''/out'') (py ''/rules''))
   \<and> py ''--local'' \<in> set (build_hunt_cmd_for_file cfg0 (py ''/workspace/evtx/HOST-A/Security.evtx'') (py ''/out'') (py ''/rules'') False)
   \<and> py ''--timezone'' \<notin> set (build_hunt_cmd_for_file cfg0 (py ''/workspace/evtx/HOST-A/Security.evtx'') (py ''/out'') (py ''/rules'') False)
   \<and> build_hunt_cmd_for_file cfg0 (py ''/workspace/evtx/HOST-A/Security.evtx'') (py ''/out'') (py ''/rules'') False ! 9 = py ''--local''"
  using build_cmd_time_flags [of cfg0 "py ''/workspace/evtx/HOST-A/Security.evtx''" "py ''/out''" "py ''/rules''" False]
  by (simp add: passed_values_def cfg0_def py_def)



section \<open>Actions and their traces\<close>

lemma bind_io_Inr:
  "bind_io m f st = (Inr b, st') \<longleftrightarrow> (\<exists>a st1. m st = (Inr a, st1) \<and> f a st1 = (Inr b, st'))"
  by (auto simp: bind_io_def split: prod.splits sum.splits)

lemma bind_io_Inl:
  "bind_io m f st = (Inl e, st') \<longleftrightarrow>
     m st = (Inl e, st') \<or> (\<exists>a st1. m st = (Inr a, st1) \<and> f a st1 = (Inl e, st'))"
  by (auto simp: bind_io_def split: prod.splits sum.splits)

lemma emitsI:
  assumes "\<And>w tr r w' tr'. m (w, tr) = (r, (w', tr')) \<Longrightarrow> \<exists>evs. tr' = tr @ evs \<and> list_all P evs"
  shows "emits P m"
  using assms unfolding emits_def by blast

lemma emitsD:
  assumes "emits P m" and "m (w, tr) = (r, (w', tr'))"
  shows "\<exists>evs. tr' = tr @ evs \<and> list_all P evs"
  using assms unfolding emits_def by blast

lemma emits_return: "emits P (return_io a)"
  by (auto simp: emits_def return_io_def)

lemma emits_emit: "P ev \<Longrightarrow> emits P (emit ev)"
  by (auto simp: emits_def emit_def)

lemma emits_effect: "P ev \<Longrightarrow> emits P (effect ev f)"
  by (auto simp: emits_def effect_def split: sum.splits)

lemma emits_observe: "emits P (observe f)"
  by (auto simp: emits_def observe_def)

lemma emits_mkdtemp: "(\<And>d. P (EvMkdtemp d)) \<Longrightarrow> emits P (do_mkdtemp os pfx)"
  by (auto simp: emits_def do_mkdtemp_def split: sum.splits prod.splits)

lemma emits_read: "(\<And>r. P (EvRead p r)) \<Longrightarrow> emits P (do_read_text os p)"
  by (auto simp: emits_def do_read_text_def)

lemma emits_bind:
  assumes "emits P m" and "\<And>a. emits P (f a)"
  shows "emits P (bind_io m f)"
proof (rule emitsI)
  fix w tr r w' tr'
  assume run: "bind_io m f (w, tr) = (r, (w', tr'))"
  obtain r1 w1 tr1 where m: "m (w, tr) = (r1, (w1, tr1))"
    by (metis prod.exhaust)
  from emitsD [OF assms(1) m] obtain evs1 where e1: "tr1 = tr @ evs1" "list_all P evs1"
    by blast
  show "\<exists>evs. tr' = tr @ evs \<and> list_all P evs"
  proof (cases r1)
    case (Inl e)
    with run m have "tr' = tr1" by (simp add: bind_io_def)
    with e1 show ?thesis by blast
  next
    case (Inr a)
    with run m have "f a (w1, tr1) = (r, (w', tr'))" by (simp add: bind_io_def)
    from emitsD [OF assms(2) this] obtain evs2 where "tr' = tr1 @ evs2" "list_all P evs2"
      by blast
    with e1 show ?thesis by auto
  qed
qed

lemma emits_try_except:
  assumes "emits P m" and "\<And>e. emits P (h e)"
  shows "emits P (try_except m h)"
proof (rule emitsI)
  fix w tr r w' tr'
  assume run: "try_except m h (w, tr) = (r, (w', tr'))"
  obtain r1 w1 tr1 where m: "m (w, tr) = (r1, (w1, tr1))"
    by (metis prod.exhaust)
  from emitsD [OF assms(1) m] obtain evs1 where e1: "tr1 = tr @ evs1" "list_all P evs1"
    by blast
  show "\<exists>evs. tr' = tr @ evs \<and> list_all P evs"
  proof (cases r1)
    case (Inr a)
    with run m have "tr' = tr1" by (simp add: try_except_def)
    with e1 show ?thesis by blast
  next
    case (Inl e)
    with run m have "h e (w1, tr1) = (r, (w', tr'))" by (simp add: try_except_def)
    from emitsD [OF assms(2) this] obtain evs2 where "tr' = tr1 @ evs2" "list_all P evs2"
      by blast
    with e1 show ?thesis by auto
  qed
qed

lemma emits_try_finally:
  assumes "emits P m" and "\<And>w tr. \<exists>evs. snd (fin (w, tr)) = tr @ evs \<and> list_all P evs"
  shows "emits P (try_finally m fin)"
proof (rule emitsI)
  fix w tr r w' tr'
  assume run: "try_finally m fin (w, tr) = (r, (w', tr'))"
  obtain r1 w1 tr1 where m: "m (w, tr) = (r1, (w1, tr1))"
    by (metis prod.exhaust)
  from emitsD [OF assms(1) m] obtain evs1 where e1: "tr1 = tr @ evs1" "list_all P evs1"
    by blast
  from run m have "fin (w1, tr1) = (w', tr')" by (simp add: try_finally_def)
  with assms(2) [of w1 tr1] obtain evs2 where "tr' = tr1 @ evs2" "list_all P evs2"
    by auto
  with e1 show "\<exists>evs. tr' = tr @ evs \<and> list_all P evs" by auto
qed

lemma emits_world:
  assumes "\<And>w. emits P (m w)"
  shows "emits P (\<lambda>(w, tr). m w (w, tr))"
  using assms unfolding emits_def by auto

lemma emits_write_all: "(\<And>s. P (EvWrite lp s)) \<Longrightarrow> emits P (write_all os lp ss)"
  by (induction ss) (auto intro!: emits_return emits_bind emits_effect)

lemma emits_run_files_verbose:
  assumes "\<And>s. P (EvWrite (ctx_log_path ctx) s)" and "\<And>c l. fs \<noteq> [] \<Longrightarrow> P (EvRun c l)"
  shows "emits P (run_files_verbose os cfg ctx fs)"
  using assms by (induction fs) (auto simp: Let_def intro!: emits_return emits_bind emits_effect)

lemma emits_run_files_quiet:
  assumes "\<And>c l. fs \<noteq> [] \<Longrightarrow> P (EvRun c l)"
  shows "emits P (run_files_quiet os cfg ctx fs)"
  using assms by (induction fs) (auto simp: Let_def intro!: emits_return emits_bind emits_effect)

lemma detect_csv_eq:
  "detect_csv os cfs (w, tr) =
     ((\<exists>p\<in>set cfs. csv_hit os w p, find (csv_hit os w) cfs),
      (w, tr @ reads_of os w (inspected (csv_hit os w) cfs)))"
proof (induction cfs arbitrary: tr)
  case Nil
  then show ?case by (simp add: inspected_def reads_of_def)
next
  case (Cons cf cfs)
  show ?case
  proof (cases "csv_hit os w cf")
    case True
    then show ?thesis
      by (auto simp: csv_hit_def do_read_text_def inspected_def reads_of_def split: sum.splits)
  next
    case False
    then have "detect_csv os (cf # cfs) (w, tr) = detect_csv os cfs (w, tr @ [EvRead cf (read_text os cf w)])"
      by (auto simp: csv_hit_def do_read_text_def split: sum.splits)
    with False show ?thesis
      by (simp add: Cons.IH inspected_def reads_of_def)
  qed
qed

lemma detect_json_eq:
  "detect_json os jfs (w, tr) =
     ((\<exists>p\<in>set jfs. json_hit os w p, find (json_hit os w) jfs),
      (w, tr @ reads_of os w (inspected (json_hit os w) jfs)))"
proof (induction jfs arbitrary: tr)
  case Nil
  then show ?case by (simp add: inspected_def reads_of_def)
next
  case (Cons jf jfs)
  show ?case
  proof (cases "json_hit os w jf")
    case True
    then show ?thesis
      by (auto simp: json_hit_def do_read_text_def inspected_def reads_of_def split: sum.splits)
  next
    case False
    then have "detect_json os (jf # jfs) (w, tr) = detect_json os jfs (w, tr @ [EvRead jf (read_text os jf w)])"
      by (auto simp: json_hit_def do_read_text_def split: sum.splits)
    with False show ?thesis
      by (simp add: Cons.IH inspected_def reads_of_def)
  qed
qed

lemma detect_log_eq:
  "detect_log os lp (w, tr) =
     (((case read_text os lp w of Inl e \<Rightarrow> False
        | Inr content \<Rightarrow> sublist (py ''DETECTED'') content \<or> sublist (py ''Matches:'') content), None),
      (w, tr @ [EvRead lp (read_text os lp w)]))"
  by (simp add: detect_log_def do_read_text_def split: sum.splits)

lemma sorted_glob_eq:
  "sorted_glob os d ext (w, tr) =
     ((case scandir os d w of Inl e \<Rightarrow> Inl e | Inr names \<Rightarrow> Inr (listed d ext names)), (w, tr))"
  by (simp add: sorted_glob_def observe_def listed_def split: sum.splits)

lemma guarded_eq:
  "guarded os cfg host_dir ctx =
     bind_io (invoke os cfg host_dir ctx) (\<lambda>_.
     bind_io (detection os cfg ctx) (\<lambda>(d, rp).
     bind_io (emit (EvStdout (status_line cfg ctx d rp))) (\<lambda>_.
     return_io (result_of cfg ctx d rp))))"
  by (simp add: guarded_def body_verbose_def body_quiet_def invoke_def detection_def
      status_line_def result_of_def)

lemma handler_eq:
  "handler cfg ctx e (w, tr) = (Inr (result_of cfg ctx False None), (w, tr @ [EvStderr (error_line ctx e)]))"
  by (simp add: handler_def bind_io_def emit_def return_io_def result_of_def error_line_def)

lemma run_for_host_raises:
  assumes "prepare os cfg host_dir st = (Inl e, st1)"
  shows "run_for_host os cfg host_dir st = (Inl e, st1)"
  using assms by (simp add: run_for_host_def bind_io_def)

lemma run_for_host_eq:
  assumes "prepare os cfg host_dir st = (Inr ctx, st1)"
  shows "run_for_host os cfg host_dir st =
     (case invoke os cfg host_dir ctx st1 of
        (Inl e, (w2, tr2)) \<Rightarrow>
          (Inr (result_of cfg ctx False None), cleanup os ctx (w2, tr2 @ [EvStderr (error_line ctx e)]))
      | (Inr u, st2) \<Rightarrow>
          (case detection os cfg ctx st2 of
             (Inl e, (w3, tr3)) \<Rightarrow>
               (Inr (result_of cfg ctx False None), cleanup os ctx (w3, tr3 @ [EvStderr (error_line ctx e)]))
           | (Inr (d, rp), (w3, tr3)) \<Rightarrow>
               (Inr (result_of cfg ctx d rp), cleanup os ctx (w3, tr3 @ [EvStdout (status_line cfg ctx d rp)]))))"
  using assms
  by (simp add: run_for_host_def guarded_eq try_finally_def try_except_def bind_io_def handler_eq
      emit_def return_io_def split: prod.splits sum.splits)

lemma host_event_simps [simp]:
  "host_event b (EvMakedirs p)" "host_event b (EvMkdtemp d)" "host_event b (EvOpen p)"
  "host_event b (EvWrite p s)" "host_event b (EvRun c l) = b" "host_event b (EvRead p r)"
  "host_event b (EvRmtree p)" "host_event b (EvStdout s)" "host_event b (EvStderr s)"
  "\<not> host_event b (EvSendMail s t)" "\<not> host_event b (EvSmtp cs)"
  by (simp_all add: host_event_def)

lemma list_all_reads_of: "list_all (host_event b) (reads_of os w ps)"
  by (simp add: reads_of_def list_all_iff)

lemma prepare_ctx:
  assumes "prepare os cfg host_dir (w, tr) = (Inr ctx, st1)"
  shows "ctx_host ctx = basename (rstrip_slash host_dir)"
    and "ctx_out_dir ctx = out_dir_of os cfg host_dir w"
    and "ctx_temp_rules_dir ctx \<noteq> None \<longleftrightarrow> CHAINS_RULE_DIR cfg = []"
  using assms
  by (auto simp: prepare_def Let_def bind_io_Inr return_io_def out_dir_of_def split: if_splits)

lemma emits_prepare: "emits (host_event b) (prepare os cfg host_dir)"
  unfolding prepare_def Let_def
  by (rule emits_world)
    (auto intro!: emits_bind emits_effect emits_observe emits_mkdtemp emits_return split: prod.splits)

lemma emits_invoke: "emits (host_event (ctx_evtx_files ctx \<noteq> [])) (invoke os cfg host_dir ctx)"
proof (cases "QUIET cfg")
  case True
  then show ?thesis
    by (auto simp: invoke_def invoke_quiet_def intro!: emits_run_files_quiet emits_return)
next
  case False
  have "emits (host_event (ctx_evtx_files ctx \<noteq> [])) (invoke_verbose os cfg host_dir ctx)"
    unfolding invoke_verbose_def
    by (intro emits_bind emits_effect emits_world emits_write_all)
      (auto intro!: emits_effect emits_run_files_verbose)
  with False show ?thesis by (simp add: invoke_def)
qed

lemma detection_state:
  assumes "detection os cfg ctx (w, tr) = (r, (w', tr'))"
  shows "w' = w \<and> (\<exists>evs. tr' = tr @ evs \<and> list_all is_read evs)"
  using assms
  by (auto simp: detection_def detection_verbose_def detection_quiet_def bind_io_def sorted_glob_eq
      detect_csv_eq detect_json_eq detect_log_eq return_io_def reads_of_def list_all_iff is_read_def
      split: if_splits sum.splits)

lemma is_read_host_event: "is_read ev \<Longrightarrow> host_event b ev"
  by (cases ev) (simp_all add: is_read_def)

lemma emits_detection: "emits (host_event b) (detection os cfg ctx)"
proof (rule emitsI)
  fix w tr r w' tr'
  assume "detection os cfg ctx (w, tr) = (r, (w', tr'))"
  from detection_state [OF this] obtain evs where "tr' = tr @ evs" "list_all is_read evs"
    by blast
  then show "\<exists>evs. tr' = tr @ evs \<and> list_all (host_event b) evs"
    by (auto simp: list_all_iff is_read_host_event)
qed

lemma emits_guarded: "emits (host_event (ctx_evtx_files ctx \<noteq> [])) (guarded os cfg host_dir ctx)"
  unfolding guarded_eq
  by (intro emits_bind emits_invoke emits_detection) (auto intro!: emits_bind emits_emit emits_return)

lemma emits_handler: "emits (host_event b) (handler cfg ctx e)"
  by (rule emitsI) (auto simp: handler_eq)

lemma cleanup_trace: "\<exists>evs. snd (cleanup os ctx (w, tr)) = tr @ evs \<and> list_all (host_event b) evs"
  by (auto simp: cleanup_def split: option.splits)

lemma emits_protected:
  "emits (host_event (ctx_evtx_files ctx \<noteq> []))
     (try_finally (try_except (guarded os cfg host_dir ctx) (handler cfg ctx)) (cleanup os ctx))"
  by (intro emits_try_finally emits_try_except emits_guarded emits_handler cleanup_trace)

lemma host_event_mono: "host_event b ev \<Longrightarrow> host_event True ev"
  by (cases ev) (simp_all add: host_event_def)

lemma emits_mono:
  assumes "emits P m" and "\<And>ev. P ev \<Longrightarrow> Q ev"
  shows "emits Q m"
  using assms unfolding emits_def list_all_iff by (metis)

lemma emits_run_for_host: "emits (host_event True) (run_for_host os cfg host_dir)"
  unfolding run_for_host_def
  by (intro emits_bind emits_prepare emits_mono [OF emits_protected] host_event_mono)

lemma find_hit_reads:
  assumes "find hit ps = Some p"
  shows "p \<in> set (inspected hit ps) \<and> hit p"
  using assms
proof (induction ps)
  case Nil
  then show ?case by simp
next
  case (Cons a ps)
  then show ?case by (cases "hit a") (auto simp: inspected_def)
qed

lemma find_Some_hit: "find P xs = Some x \<Longrightarrow> P x \<and> x \<in> set xs"
  by (auto simp: find_Some_iff)

lemma set_listed: "set (listed d ext names) = path_child d ` {n \<in> set names. suffix ext n}"
  by (auto simp: listed_def)

text \<open>What the detection check returns, for each format.\<close>

lemma detection_result:
  assumes "detection os cfg ctx (w, tr) = (Inr (d, rp), (w', tr'))"
  shows "(rp \<noteq> None \<longrightarrow> d)"
    and "CHAINS_FORMAT cfg = py ''csv'' \<or> CHAINS_FORMAT cfg = py ''json'' \<Longrightarrow> d \<Longrightarrow>
           \<exists>name. suffix (format_ext cfg) name \<and> rp = Some (path_child (ctx_out_dir ctx) name)"
    and "CHAINS_FORMAT cfg \<noteq> py ''csv'' \<Longrightarrow> CHAINS_FORMAT cfg \<noteq> py ''json'' \<Longrightarrow> rp = None"
    and "d \<Longrightarrow> \<exists>p text. EvRead p (Inr text) \<in> set (drop (length tr) tr') \<and> qualifies cfg ctx p text"
proof -
  show "rp \<noteq> None \<longrightarrow> d"
    using assms
    by (auto simp: detection_def detection_verbose_def detection_quiet_def bind_io_def sorted_glob_eq
        detect_csv_eq detect_json_eq detect_log_eq return_io_def
        split: if_splits sum.splits dest!: find_Some_hit)
  show "rp = None" if "CHAINS_FORMAT cfg \<noteq> py ''csv''" "CHAINS_FORMAT cfg \<noteq> py ''json''"
    using assms that
    by (auto simp: detection_def detection_verbose_def detection_quiet_def detect_log_eq return_io_def
        split: if_splits)
  show "\<exists>name. suffix (format_ext cfg) name \<and> rp = Some (path_child (ctx_out_dir ctx) name)"
    if fmt: "CHAINS_FORMAT cfg = py ''csv'' \<or> CHAINS_FORMAT cfg = py ''json''" and d
  proof -
    from assms fmt \<open>d\<close> obtain names hit where
      "rp = find hit (listed (ctx_out_dir ctx) (format_ext cfg) names)" "rp \<noteq> None"
      by (auto simp: detection_def detection_verbose_def detection_quiet_def bind_io_def sorted_glob_eq
        detect_csv_eq detect_json_eq return_io_def find_None_iff format_ext_def py_def
        split: if_splits sum.splits)
    then obtain p where "find hit (listed (ctx_out_dir ctx) (format_ext cfg) names) = Some p" "rp = Some p"
      by auto
    then have "p \<in> set (listed (ctx_out_dir ctx) (format_ext cfg) names)"
      by (auto simp: find_Some_iff)
    with \<open>rp = Some p\<close> show ?thesis
      by (auto simp: set_listed)
  qed
  show "\<exists>p text. EvRead p (Inr text) \<in> set (drop (length tr) tr') \<and> qualifies cfg ctx p text" if d
  proof (cases "CHAINS_FORMAT cfg = py ''csv''")
    case True
    with assms \<open>d\<close> obtain cfs where cfs: "tr' = tr @ reads_of os w (inspected (csv_hit os w) cfs)"
      "\<exists>p\<in>set cfs. csv_hit os w p"
      by (auto simp: detection_def detection_verbose_def detection_quiet_def bind_io_def sorted_glob_eq
        detect_csv_eq split: if_splits sum.splits)
    then obtain p where "find (csv_hit os w) cfs = Some p"
      by (metis find_None_iff not_Some_eq)
    from find_hit_reads [OF this] have p: "p \<in> set (inspected (csv_hit os w) cfs)" "csv_hit os w p"
      by auto
    then obtain content where c: "read_text os p w = Inr content" "1 < length (rows content)"
      by (auto simp: csv_hit_def split: sum.splits)
    from p(1) have "EvRead p (read_text os p w) \<in> set (reads_of os w (inspected (csv_hit os w) cfs))"
      by (simp add: reads_of_def)
    with cfs c have "EvRead p (Inr content) \<in> set (drop (length tr) tr')"
      by simp
    moreover from c True have "qualifies cfg ctx p content"
      by (simp add: qualifies_def)
    ultimately show ?thesis by blast
  next
    case notcsv: False
    show ?thesis
    proof (cases "CHAINS_FORMAT cfg = py ''json''")
      case True
      with assms \<open>d\<close> notcsv obtain jfs where jfs: "tr' = tr @ reads_of os w (inspected (json_hit os w) jfs)"
        "\<exists>p\<in>set jfs. json_hit os w p"
        by (auto simp: detection_def detection_verbose_def detection_quiet_def bind_io_def sorted_glob_eq
          detect_json_eq split: if_splits sum.splits)
      then obtain p where "find (json_hit os w) jfs = Some p"
        by (metis find_None_iff not_Some_eq)
      from find_hit_reads [OF this] have p: "p \<in> set (inspected (json_hit os w) jfs)" "json_hit os w p"
        by auto
      then obtain content where c: "read_text os p w = Inr content" "strip content \<noteq> []"
        by (auto simp: json_hit_def split: sum.splits)
      from p(1) have "EvRead p (read_text os p w) \<in> set (reads_of os w (inspected (json_hit os w) jfs))"
        by (simp add: reads_of_def)
      with jfs c have "EvRead p (Inr content) \<in> set (drop (length tr) tr')"
        by simp
      moreover from c True notcsv have "qualifies cfg ctx p content"
        by (simp add: qualifies_def)
      ultimately show ?thesis by blast
    next
      case False
      with assms \<open>d\<close> notcsv show ?thesis
        by (auto simp: detection_def detection_verbose_def detection_quiet_def detect_log_eq
            return_io_def qualifies_def split: if_splits sum.splits)
    qed
  qed
qed


section \<open>The Host Runner: claims C10, C8, C1 and C6\<close>

lemma prepare_cases:
  obtains (raised) e st1 where "prepare os cfg host_dir st = (Inl e, st1)"
  | (ready) ctx st1 where "prepare os cfg host_dir st = (Inr ctx, st1)"
  by (metis prod.exhaust sum.exhaust)


lemma guarded_Inr:
  "guarded os cfg host_dir ctx st1 = (Inr res, st2) \<longleftrightarrow>
     (\<exists>u st d rp w3 tr3. invoke os cfg host_dir ctx st1 = (Inr u, st)
        \<and> detection os cfg ctx st = (Inr (d, rp), (w3, tr3))
        \<and> res = result_of cfg ctx d rp \<and> st2 = (w3, tr3 @ [EvStdout (status_line cfg ctx d rp)]))"
  by (auto simp: guarded_eq bind_io_def emit_def return_io_def split: prod.splits sum.splits)

lemma run_for_host_guarded:
  assumes "prepare os cfg host_dir st = (Inr ctx, st1)"
  shows "run_for_host os cfg host_dir st =
     (case guarded os cfg host_dir ctx st1 of
        (Inl e, (w2, tr2)) \<Rightarrow>
          (Inr (result_of cfg ctx False None), cleanup os ctx (w2, tr2 @ [EvStderr (error_line ctx e)]))
      | (Inr res, st2) \<Rightarrow> (Inr res, cleanup os ctx st2))"
  using assms
  by (simp add: run_for_host_def try_finally_def try_except_def bind_io_def handler_eq
      split: prod.splits sum.splits)

lemma result_of_simps [simp]:
  "host (result_of cfg ctx d rp) = ctx_host ctx"
  "detected (result_of cfg ctx d rp) = d"
  "report_path (result_of cfg ctx d rp) = rp"
  by (simp_all add: result_of_def)

text \<open>
  Claim C10. Every result that \<^verbatim>\<open>run_for_host\<close> returns satisfies: a report path is present
  only if the host is detected; for the formats csv and json a detected host has a report
  path, which is \<^verbatim>\<open>str(Path(out_dir) / name)\<close> for an entry \<open>name\<close> of this host's own
  output directory that ends with the extension of the format; for every other format
  (log among them) the report path is absent, detected or not.
\<close>

theorem scan_result_invariant:
  assumes "run_for_host os cfg host_dir (w, tr) = (Inr res, st')"
  shows "(report_path res \<noteq> None \<longrightarrow> detected res) \<and>
         (CHAINS_FORMAT cfg = py ''csv'' \<or> CHAINS_FORMAT cfg = py ''json'' \<longrightarrow> detected res \<longrightarrow>
            (\<exists>name. suffix (format_ext cfg) name \<and>
               report_path res = Some (path_child (out_dir_of os cfg host_dir w) name))) \<and>
         (CHAINS_FORMAT cfg \<noteq> py ''csv'' \<and> CHAINS_FORMAT cfg \<noteq> py ''json'' \<longrightarrow> report_path res = None)"
proof (cases rule: prepare_cases [of os cfg host_dir "(w, tr)"])
  case (raised e st1)
  with assms show ?thesis by (simp add: run_for_host_raises)
next
  case (ready ctx st1)
  note out = prepare_ctx(2) [OF ready]
  obtain r2 w2 tr2 where g: "guarded os cfg host_dir ctx st1 = (r2, (w2, tr2))"
    by (metis prod.exhaust)
  show ?thesis
  proof (cases r2)
    case (Inl e)
    with assms ready g have "res = result_of cfg ctx False None"
      by (simp add: run_for_host_guarded)
    then show ?thesis by simp
  next
    case (Inr res')
    with assms ready g have "res' = res"
      by (simp add: run_for_host_guarded)
    with g Inr obtain st d rp w3 tr3 where
      det: "detection os cfg ctx st = (Inr (d, rp), (w3, tr3))" and res: "res = result_of cfg ctx d rp"
      by (auto simp: guarded_Inr)
    obtain w0 tr0 where st: "st = (w0, tr0)" by (cases st)
    from detection_result(1-3) [OF det [unfolded st]] res out show ?thesis
      by auto
  qed
qed

text \<open>
  Claim C8. A temporary rules directory \<open>d\<close> is created exactly when no rules directory is
  configured, as the last step before the \<^verbatim>\<open>try\<close>. From there every path leaves through the
  \<^verbatim>\<open>finally\<close> clause: whether the guarded part returns or its exception is handled, the state
  \<open>(w2, tr2)\<close> it ends in is followed by \<^verbatim>\<open>shutil.rmtree(d, ignore_errors=True)\<close> when \<open>d\<close> is
  still a directory, and \<^verbatim>\<open>run_for_host\<close> returns a result. \<open>rmtree\<close> cannot raise, so a
  failed deletion goes unnoticed.
\<close>

theorem temp_rules_dir_removed:
  assumes "prepare os cfg host_dir (w, tr) = (Inr ctx, st1)"
    and "ctx_temp_rules_dir ctx = Some d"
  shows "CHAINS_RULE_DIR cfg = [] \<and>
         (\<exists>res w2 tr2.
            try_except (guarded os cfg host_dir ctx) (handler cfg ctx) st1 = (Inr res, (w2, tr2)) \<and>
            run_for_host os cfg host_dir (w, tr) =
              (Inr res, (if d \<noteq> [] \<and> isdir os d w2 then (rmtree os d w2, tr2 @ [EvRmtree d])
                         else (w2, tr2))))"
proof -
  from prepare_ctx(3) [OF assms(1)] assms(2) have "CHAINS_RULE_DIR cfg = []"
    by simp
  moreover obtain r2 w2 tr2 where g: "guarded os cfg host_dir ctx st1 = (r2, (w2, tr2))"
    by (metis prod.exhaust)
  have "\<exists>res w2 tr2.
            try_except (guarded os cfg host_dir ctx) (handler cfg ctx) st1 = (Inr res, (w2, tr2)) \<and>
            run_for_host os cfg host_dir (w, tr) =
              (Inr res, (if d \<noteq> [] \<and> isdir os d w2 then (rmtree os d w2, tr2 @ [EvRmtree d])
                         else (w2, tr2)))"
    using assms g
    by (cases r2) (auto simp: run_for_host_guarded try_except_def handler_eq cleanup_def)
  ultimately show ?thesis by blast
qed

lemma run_for_host_returns:
  assumes "prepare os cfg host_dir st = (Inr ctx, st1)"
  shows "\<exists>res st'. run_for_host os cfg host_dir st = (Inr res, st') \<and> host res = ctx_host ctx \<and>
           (\<forall>e w2 tr2. guarded os cfg host_dir ctx st1 = (Inl e, (w2, tr2)) \<longrightarrow>
              \<not> detected res \<and> report_path res = None \<and>
              st' = cleanup os ctx (w2, tr2 @ [EvStderr (error_line ctx e)]))"
proof -
  obtain r2 w2 tr2 where g: "guarded os cfg host_dir ctx st1 = (r2, (w2, tr2))"
    by (metis prod.exhaust)
  show ?thesis
  proof (cases r2)
    case (Inl e)
    with assms g show ?thesis by (simp add: run_for_host_guarded)
  next
    case (Inr res)
    with g have "host res = ctx_host ctx" by (auto simp: guarded_Inr)
    with assms g Inr show ?thesis by (simp add: run_for_host_guarded)
  qed
qed



text \<open>
  Claim C6, amended. For a host directory with no matching input file, no SCANNER
  subprocess is started, in the verbose and in the quiet branch, and \<^verbatim>\<open>run_for_host\<close>
  returns a result. The detection check still runs: the host is reported as detected only
  if that check has read a file whose text qualifies for the configured format, and a
  host that is not detected has no report path.
\<close>

theorem no_input_files:
  assumes "prepare os cfg host_dir (w, tr) = (Inr ctx, st1)"
    and "ctx_evtx_files ctx = []"
  shows "\<exists>res w' evs. run_for_host os cfg host_dir (w, tr) = (Inr res, (w', tr @ evs)) \<and>
           list_all (\<lambda>ev. \<not> is_run ev) evs \<and>
           (detected res \<longrightarrow> (\<exists>p content. EvRead p (Inr content) \<in> set evs \<and> qualifies cfg ctx p content)) \<and>
           (\<not> detected res \<longrightarrow> report_path res = None)"
proof -
  obtain w1 tr1 where st1: "st1 = (w1, tr1)" by (cases st1)
  from emitsD [OF emits_prepare assms(1) [unfolded st1]] obtain evs1 where
    tr1: "tr1 = tr @ evs1" "list_all (host_event False) evs1"
    by blast
  from run_for_host_returns [OF assms(1)] obtain res w' tr' where
    run: "run_for_host os cfg host_dir (w, tr) = (Inr res, (w', tr'))"
    by auto
  from assms(1) run have prot:
    "try_finally (try_except (guarded os cfg host_dir ctx) (handler cfg ctx)) (cleanup os ctx) (w1, tr1)
       = (Inr res, (w', tr'))"
    by (simp add: run_for_host_def bind_io_def st1)
  from emitsD [OF emits_protected prot] assms(2) obtain evs2 where
    tr': "tr' = tr1 @ evs2" "list_all (host_event False) evs2"
    by auto
  have norun: "list_all (\<lambda>ev. \<not> is_run ev) (evs1 @ evs2)"
  proof -
    have "\<not> is_run ev" if "host_event False ev" for ev
      using that by (cases ev) (simp_all add: is_run_def)
    with tr1(2) tr'(2) show ?thesis by (auto simp: list_all_iff)
  qed
  obtain r2 w2 tr2 where g: "guarded os cfg host_dir ctx (w1, tr1) = (r2, (w2, tr2))"
    by (metis prod.exhaust)
  have det: "(detected res \<longrightarrow> (\<exists>p content. EvRead p (Inr content) \<in> set (evs1 @ evs2) \<and> qualifies cfg ctx p content))
      \<and> (\<not> detected res \<longrightarrow> report_path res = None)"
  proof (cases r2)
    case (Inl e)
    with assms(1) g run st1 have "res = result_of cfg ctx False None"
      by (auto simp: run_for_host_guarded)
    then show ?thesis by simp
  next
    case (Inr res')
    with assms(1) g run st1 have eq: "res' = res" and fin: "(w', tr') = cleanup os ctx (w2, tr2)"
      by (simp_all add: run_for_host_guarded)
    from g Inr eq obtain u w0 tr0 d rp w3 tr3 where
      inv: "invoke os cfg host_dir ctx (w1, tr1) = (Inr u, (w0, tr0))" and
      det: "detection os cfg ctx (w0, tr0) = (Inr (d, rp), (w3, tr3))" and
      res: "res = result_of cfg ctx d rp" and tr2: "tr2 = tr3 @ [EvStdout (status_line cfg ctx d rp)]"
      by (auto simp: guarded_Inr)
    from emitsD [OF emits_invoke inv] obtain evsa where tr0: "tr0 = tr1 @ evsa"
      by blast
    from detection_state [OF det] obtain evsb where tr3: "tr3 = tr0 @ evsb"
      by blast
    from cleanup_trace [of os ctx w2 tr2 True] fin obtain evsc where trc: "tr' = tr2 @ evsc"
      by (metis snd_conv)
    have sub: "set (drop (length tr0) tr3) \<subseteq> set (evs1 @ evs2)"
    proof -
      from tr0 tr3 tr2 trc tr'(1) have "evs2 = evsa @ evsb @ [EvStdout (status_line cfg ctx d rp)] @ evsc"
        by simp
      with tr3 show ?thesis by auto
    qed
    have "report_path res = None" if "\<not> detected res"
      using detection_result(1) [OF det] res that by simp
    moreover have "\<exists>p content. EvRead p (Inr content) \<in> set (evs1 @ evs2) \<and> qualifies cfg ctx p content"
      if "detected res"
    proof -
      from that res have d by simp
      from detection_result(4) [OF det this] sub show ?thesis by blast
    qed
    ultimately show ?thesis by blast
  qed
  from run tr1(1) tr'(1) norun det show ?thesis
    by (intro exI [of _ res] exI [of _ w'] exI [of _ "evs1 @ evs2"]) simp
qed


section \<open>Enumeration, notification and detection: claims C2, C4, C3 and C5\<close>

lemma bind_io_app:
  "bind_io m f st = (case m st of (Inl e, st') \<Rightarrow> (Inl e, st') | (Inr a, st') \<Rightarrow> f a st')"
  by (simp add: bind_io_def)

lemma return_io_app: "return_io a st = (Inr a, st)"
  by (simp add: return_io_def)

lemma emit_app: "emit ev (w, tr) = (Inr (), (w, tr @ [ev]))"
  by (simp add: emit_def)

lemma effect_app:
  "effect ev f (w, tr) =
     (case f w of Inl e \<Rightarrow> (Inl e, (w, tr @ [ev])) | Inr w' \<Rightarrow> (Inr (), (w', tr @ [ev])))"
  by (simp add: effect_def)

lemma observe_app: "observe f (w, tr) = (f w, (w, tr))"
  by (simp add: observe_def)

lemma sim_os_fields:
  "strftime_now (sim_os sc) w = py ''20240101120000''"
  "isoformat_now (sim_os sc) w = py ''2024-01-01T12:00:00''"
  "makedirs (sim_os sc) p w = Inr (w\<lparr>sim_dirs := sim_dirs w @ [p]\<rparr>)"
  "rglob (sim_os sc) d w = Inr (filter (prefix (rstrip_slash d @ [slash])) (map fst (sim_files w)))"
  "is_file (sim_os sc) p w = Inr (p \<in> set (map fst (sim_files w)))"
  "resolve (sim_os sc) p w = Inr p"
  "mkdtemp (sim_os sc) pfx w = Inr (py ''/tmp/'' @ pfx @ py ''0'',
                   w\<lparr>sim_dirs := sim_dirs w @ [py ''/tmp/'' @ pfx @ py ''0'']\<rparr>)"
  "open_w (sim_os sc) p w = Inr (w\<lparr>sim_files := filter (\<lambda>(q, c). q \<noteq> p) (sim_files w) @ [(p, [])]\<rparr>)"
  "write_text (sim_os sc) p s w = Inr (w\<lparr>sim_files := sim_write p s (sim_files w)\<rparr>)"
  "subprocess_run (sim_os sc) cmd lp w =
     (case sc cmd lp (sim_files w) of Inl e \<Rightarrow> Inl e | Inr fs \<Rightarrow> Inr (w\<lparr>sim_files := fs\<rparr>))"
  "scandir (sim_os sc) d w = Inr (List.map_filter (child_name d) (map fst (sim_files w)))"
  "read_text (sim_os sc) p w =
     (case map_of (sim_files w) p of None \<Rightarrow> Inl (Exc (py ''No such file'')) | Some c \<Rightarrow> Inr c)"
  "isdir (sim_os sc) p w = (p \<in> set (sim_dirs w))"
  "rmtree (sim_os sc) p w = w\<lparr>sim_dirs := filter (\<lambda>q. q \<noteq> p) (sim_dirs w)\<rparr>"
  "listdir (sim_os sc) d w = Inr (List.map_filter (child_name d) (sim_dirs w))"
  "smtp (sim_os sc) cmds w = Inr w"
  by (simp_all add: sim_os_def)

lemmas str_defs = basename_def rstrip_slash_def path_join_def path_suffix_def rfind_dot_def
  lower_def lower_char_def py_def slash_def dot_def nl_def



lemma send_mail_calls_append [simp]:
  "send_mail_calls (xs @ ys) = send_mail_calls xs @ send_mail_calls ys"
proof (induction xs)
  case Nil
  then show ?case by simp
next
  case (Cons ev xs)
  then show ?case by (cases ev) simp_all
qed

lemma send_mail_calls_host:
  "list_all (host_event b) evs \<Longrightarrow> send_mail_calls evs = []"
proof (induction evs)
  case Nil
  then show ?case by simp
next
  case (Cons ev evs)
  then show ?case by (cases ev) auto
qed

lemma emits_run_hosts: "emits (host_event True) (run_hosts os cfg ds)"
proof (induction ds)
  case Nil
  then show ?case by (auto simp: emits_def)
next
  case (Cons d ds)
  show ?case
  proof (rule emitsI)
    fix w tr r w' tr'
    assume run: "run_hosts os cfg (d # ds) (w, tr) = (r, (w', tr'))"
    obtain r1 w1 tr1 where h: "run_for_host os cfg d (w, tr) = (r1, (w1, tr1))"
      by (metis prod.exhaust)
    from emitsD [OF emits_run_for_host h] obtain evs1 where
      e1: "tr1 = tr @ evs1" "list_all (host_event True) evs1" by blast
    show "\<exists>evs. tr' = tr @ evs \<and> list_all (host_event True) evs"
    proof (cases r1)
      case (Inl e)
      obtain r2 w2 tr2 where rest: "run_hosts os cfg ds (w1, tr1) = (r2, (w2, tr2))"
        by (metis prod.exhaust)
      from emitsD [OF Cons.IH rest] obtain evs2 where
        e2: "tr2 = tr1 @ evs2" "list_all (host_event True) evs2" by blast
      from run h Inl rest have "tr' = tr2" by simp
      with e1 e2 show ?thesis by auto
    next
      case (Inr res)
      let ?ev = "EvStdout (py ''['' @ status_of (detected res) @ py ''] '' @ host res
                            @ py '' -> '' @ str_opt (report_path res))"
      obtain r2 w2 tr2 where rest: "run_hosts os cfg ds (w1, tr1 @ [?ev]) = (r2, (w2, tr2))"
        by (metis prod.exhaust)
      from emitsD [OF Cons.IH rest] obtain evs2 where
        e2: "tr2 = (tr1 @ [?ev]) @ evs2" "list_all (host_event True) evs2" by blast
      from run h Inr rest have "tr' = tr2"
        by (auto simp: emit_def split: sum.splits)
      with e1 e2 show ?thesis by auto
    qed
  qed
qed

lemma summary_lines_eq:
  "summary_lines cfg ds = summary_head cfg @ map host_line ds"
  by (simp add: summary_lines_def summary_head_def host_line_def)

lemma send_mail_calls_of_send_mail:
  assumes "send_mail os cfg subject body (w, tr) = (r, (w', tr'))"
  shows "send_mail_calls tr' = send_mail_calls tr @ [(subject, body)]"
proof (cases "SMTP_HOST cfg \<noteq> [] \<and> MAIL_FROM cfg \<noteq> [] \<and> MAIL_TO cfg \<noteq> []")
  case False
  with assms have "tr' = tr @ [EvSendMail subject body, EvStderr warn_text]"
    by (auto simp: send_mail_def bind_io_def emit_def)
  then show ?thesis by simp
next
  case True
  with assms obtain cmds where "tr' = tr @ [EvSendMail subject body, EvSmtp cmds]"
    by (auto simp: send_mail_def bind_io_def emit_def effect_def Let_def split: sum.splits)
  then show ?thesis by simp
qed

lemma notify_calls:
  assumes "notify os cfg results (w, tr) = (r, (w', tr'))"
  shows "send_mail_calls tr' = send_mail_calls tr @
           (if filter detected results \<noteq> []
            then [(MAIL_SUBJECT_PREFIX cfg @ py '' '' @ str_nat (length (filter detected results))
                     @ py '' host(s) detected'',
                   join nl (summary_head cfg @ map host_line (filter detected results)))]
            else [])"
proof (cases "filter detected results = []")
  case True
  with assms have "tr' = tr @ [EvStdout info_text]"
    by (simp add: notify_def emit_def)
  with True show ?thesis by simp
next
  case False
  with assms have "send_mail os cfg
      (MAIL_SUBJECT_PREFIX cfg @ py '' '' @ str_nat (length (filter detected results)) @ py '' host(s) detected'')
      (join nl (summary_lines cfg (filter detected results))) (w, tr) = (r, (w', tr'))"
    by (simp add: notify_def Let_def)
  from send_mail_calls_of_send_mail [OF this] False show ?thesis
    by (simp add: summary_lines_eq)
qed

text \<open>
  Claim C4. When \<^verbatim>\<open>main\<close> has collected the results of all hosts, the Notifier is called
  once if some host is detected and not at all otherwise. The subject is the prefix, the
  number of detected hosts and \<^verbatim>\<open>host(s) detected\<close>; the body ends with one line per
  detected host, which shows its report path, or \<^verbatim>\<open>(report not found)\<close> when it has none.
\<close>

theorem notification:
  assumes "listdir os (EVTX_ROOT cfg) w = Inr names"
    and "host_dirs_of os cfg w names \<noteq> []"
    and "run_hosts os cfg (host_dirs_of os cfg w names) (w, tr) = (Inr results, st1)"
  shows "\<exists>out w' tr'. main os cfg (w, tr) = (out, (w', tr')) \<and>
           send_mail_calls tr' = send_mail_calls tr @
             (if \<exists>r\<in>set results. detected r
              then [(MAIL_SUBJECT_PREFIX cfg @ py '' '' @ str_nat (length (filter detected results))
                       @ py '' host(s) detected'',
                     join nl (summary_head cfg @ map host_line (filter detected results)))]
              else [])"
proof -
  obtain w1 tr1 where st1: "st1 = (w1, tr1)" by (cases st1)
  from emitsD [OF emits_run_hosts assms(3) [unfolded st1]] obtain evs where
    "tr1 = tr @ evs" "list_all (host_event True) evs" by blast
  then have calls1: "send_mail_calls tr1 = send_mail_calls tr"
    by (simp add: send_mail_calls_host)
  obtain r w' tr' where n: "notify os cfg results (w1, tr1) = (r, (w', tr'))"
    by (metis prod.exhaust)
  have any: "(\<exists>r\<in>set results. detected r) \<longleftrightarrow> filter detected results \<noteq> []"
    by (simp add: filter_empty_conv)
  from assms n st1 have "main os cfg (w, tr) = ((case r of Inl e \<Rightarrow> Raised e | Inr u \<Rightarrow> Returned), (w', tr'))"
    by (simp add: main_def host_dirs_of_def Let_def split: sum.splits)
  with notify_calls [OF n] calls1 any show ?thesis
    by simp
qed





section \<open>Concrete runs\<close>

text \<open>
  The runs below are evaluated step by step: the preparation, the SCANNER invocations, the
  detection check and the cleanup, each on the world the previous step has left.
\<close>

lemmas pathA_defs = evtxA_def hdA_def hdB_def outA_def tmp0_def sigmaA_def antivirusA_def

lemma cfg0_fields:
  "REPORTS_DIR cfg0 = py ''/workspace/reports''" "CHAINS_RULE_DIR cfg0 = []" "QUIET cfg0"
  "CHAINS_FORMAT cfg0 = py ''csv''" "EVTX_ROOT cfg0 = py ''/workspace/evtx''"
  by (simp_all add: cfg0_def)

lemma prepare_A:
  assumes "REPORTS_DIR cfg = py ''/workspace/reports''" and "CHAINS_RULE_DIR cfg = []"
  shows "prepare (sim_os sc) cfg hdA (wA, []) = (Inr ctxA, (wA1, trA1))"
  using assms
  by (simp add: prepare_def wA_def ctxA_def wA1_def trA1_def pathA_defs sim_os_fields
      bind_io_def effect_def observe_def enumerate_evtx_def do_mkdtemp_def return_io_def
      Let_def str_defs)

lemma build_A: "build_hunt_cmd_for_file cfg0 evtxA outA tmp0 False = cmdA"
  by (simp add: build_hunt_cmd_for_file_def cfg0_def cmdA_def Let_def py_def)

lemma ctxA_fields:
  "ctx_host ctxA = py ''HOST-A''" "ctx_out_dir ctxA = outA" "ctx_evtx_files ctxA = [evtxA]"
  "ctx_rules_dir ctxA = tmp0" "ctx_temp_rules_dir ctxA = Some tmp0"
  by (simp_all add: ctxA_def)

lemma invoke_quiet_A:
  assumes "QUIET cfg" and "build_hunt_cmd_for_file cfg evtxA outA tmp0 False = cmd"
  shows "invoke (sim_os sc) cfg host_dir ctxA (wA1, tr) =
     (case sc cmd None [(evtxA, [])] of
        Inl e \<Rightarrow> (Inl e, (wA1, tr @ [EvRun cmd None]))
      | Inr fs \<Rightarrow> (Inr (), (wA1\<lparr>sim_files := fs\<rparr>, tr @ [EvRun cmd None])))"
  using assms
  by (simp add: invoke_def invoke_quiet_def ctxA_fields bind_io_app effect_app return_io_app
      sim_os_fields wA1_def split: sum.splits)

lemma scanner_hit_A:
  "scanner_hit cmdA lp [(evtxA, [])] = Inr [(evtxA, []), (sigmaA, hit_rows), (antivirusA, hit_rows)]"
  by (simp add: scanner_hit_def cmdA_def sim_write_def pathA_defs py_def)

lemma invoke_A:
  "invoke (sim_os scanner_hit) cfg0 hdA ctxA (wA1, trA1) = (Inr (), (wA2, trA1 @ [EvRun cmdA None]))"
  by (simp add: invoke_quiet_A [OF cfg0_fields(3) build_A] scanner_hit_A) (simp add: wA1_def wA2_def)

lemma scandir_A: "scandir (sim_os sc) outA wA2 = Inr [py ''sigma.csv'', py ''antivirus.csv'']"
  by (simp add: sim_os_fields wA2_def child_name_def pathA_defs py_def slash_def)

lemma listed_A: "listed outA (py ''.csv'') [py ''sigma.csv'', py ''antivirus.csv''] = [antivirusA, sigmaA]"
  by (simp add: listed_def pathA_defs suffix_to_prefix path_child_def path_str_def
      path_root_def path_parts_def path_key_def py_def slash_def dot_def)

lemma read_antivirus_A: "read_text (sim_os sc) antivirusA wA2 = Inr hit_rows"
  by (simp add: sim_os_fields wA2_def pathA_defs py_def)

lemma rows_hit: "rows hit_rows = [py ''timestamp,detections'', py ''2024-01-01T09:30:00,Suspicious logon'']"
  by (simp add: rows_def hit_rows_def splitlines_def strip_def is_linebreak_def is_space_def py_def nl_def)

lemma csv_hit_A: "csv_hit (sim_os sc) wA2 antivirusA"
  by (simp add: csv_hit_def read_antivirus_A rows_hit)

lemma cleanup_tmp0:
  assumes "ctx_temp_rules_dir ctx = Some tmp0" and "tmp0 \<in> set (sim_dirs w)"
  shows "cleanup (sim_os sc) ctx (w, tr) =
           (w\<lparr>sim_dirs := filter (\<lambda>q. q \<noteq> tmp0) (sim_dirs w)\<rparr>, tr @ [EvRmtree tmp0])"
  using assms by (auto simp: cleanup_def sim_os_fields tmp0_def py_def)

lemma status_A:
  "status_line cfg0 ctxA True (Some antivirusA) =
     py ''[DETECTED] HOST-A -> /workspace/reports/HOST-A-20240101120000/antivirus.csv''"
  by (simp add: status_line_def cfg0_def ctxA_def antivirusA_def status_of_def or_else_def py_def)

lemma detection_A:
  "detection (sim_os sc) cfg0 ctxA (wA2, tr) =
     (Inr (True, Some antivirusA), (wA2, tr @ [EvRead antivirusA (Inr hit_rows)]))"
  by (simp add: detection_def detection_quiet_def cfg0_fields ctxA_fields bind_io_app sorted_glob_eq
      scandir_A listed_A detect_csv_eq csv_hit_A inspected_def reads_of_def read_antivirus_A
      del: detect_csv.simps)

lemma run_A: "run_for_host (sim_os scanner_hit) cfg0 hdA (wA, []) = (Inr resA, (wA3, trA3))"
proof -
  have "cleanup (sim_os scanner_hit) ctxA
          (wA2, (trA1 @ [EvRun cmdA None, EvRead antivirusA (Inr hit_rows)])
                @ [EvStdout (status_line cfg0 ctxA True (Some antivirusA))]) = (wA3, trA3)"
    by (simp add: cleanup_tmp0 ctxA_fields wA2_def wA3_def trA1_def trA3_def status_A)
      (simp add: pathA_defs py_def)
  moreover have "result_of cfg0 ctxA True (Some antivirusA) = resA"
    by (simp add: result_of_def resA_def cfg0_fields ctxA_fields)
  ultimately show ?thesis
    by (simp add: run_for_host_eq [OF prepare_A [OF cfg0_fields(1,2)]] invoke_A detection_A)
qed









text \<open>
  The invariant on the detected host of the first run.
\<close>

theorem scan_result_invariant_witness:
  "run_for_host (sim_os scanner_hit) cfg0 hdA (wA, []) = (Inr resA, (wA3, trA3))
   \<and> detected resA
   \<and> out_dir_of (sim_os scanner_hit) cfg0 hdA wA = outA
   \<and> path_child outA (py ''antivirus.csv'') = antivirusA
   \<and> report_path resA = Some antivirusA
   \<and> (\<exists>name. suffix (py ''.csv'') name \<and> report_path resA = Some (path_child outA name))"
proof -
  have out: "out_dir_of (sim_os scanner_hit) cfg0 hdA wA = outA"
    by (simp add: out_dir_of_def cfg0_fields sim_os_fields pathA_defs str_defs)
  have child: "path_child outA (py ''antivirus.csv'') = antivirusA"
    by (simp add: path_child_def path_str_def path_root_def path_parts_def pathA_defs py_def slash_def dot_def)
  have d: "detected resA" "report_path resA = Some antivirusA"
    by (simp_all add: resA_def)
  from scan_result_invariant [OF run_A] d out
  have "\<exists>name. suffix (py ''.csv'') name \<and> report_path resA = Some (path_child outA name)"
    by (simp add: cfg0_fields format_ext_def)
  with run_A d out child show ?thesis by simp
qed



lemma invoke_M:
  "invoke (sim_os scanner_missing) cfg0 hdA ctxA (wA1, trA1) =
     (Inl (Exc msg_missing), (wA1, trA1 @ [EvRun cmdA None]))"
  by (simp add: invoke_quiet_A [OF cfg0_fields(3) build_A] scanner_missing_def msg_missing_def)


lemma error_line_M:
  "error_line ctxA (Exc msg_missing) = py ''[ERROR] HOST-A: [Errno 2] No such file or directory: chainsaw''"
  by (simp add: error_line_def ctxA_fields str_exc_def msg_missing_def py_def)

lemma run_M: "run_for_host (sim_os scanner_missing) cfg0 hdA (wA, []) = (Inr resH, (wM3, trM3))"
proof -
  have "cleanup (sim_os scanner_missing) ctxA
          (wA1, (trA1 @ [EvRun cmdA None]) @ [EvStderr (error_line ctxA (Exc msg_missing))]) = (wM3, trM3)"
    by (simp add: cleanup_tmp0 ctxA_fields wA1_def wM3_def trA1_def trM3_def error_line_M)
      (simp add: pathA_defs py_def)
  moreover have "result_of cfg0 ctxA False None = resH"
    by (simp add: result_of_def resH_def cfg0_fields ctxA_fields)
  ultimately show ?thesis
    by (simp add: run_for_host_eq [OF prepare_A [OF cfg0_fields(1,2)]] invoke_M)
qed





text \<open>
  The temporary directory exists after the preparation and is gone after the run, both
  when the run completes and when the SCANNER invocation raises.
\<close>

theorem temp_rules_dir_removed_witness:
  "prepare (sim_os scanner_hit) cfg0 hdA (wA, []) = (Inr ctxA, (wA1, trA1))
   \<and> ctx_temp_rules_dir ctxA = Some tmp0
   \<and> CHAINS_RULE_DIR cfg0 = []
   \<and> isdir (sim_os scanner_hit) tmp0 wA1
   \<and> run_for_host (sim_os scanner_hit) cfg0 hdA (wA, []) = (Inr resA, (wA3, trA3))
   \<and> last trA3 = EvRmtree tmp0
   \<and> \<not> isdir (sim_os scanner_hit) tmp0 wA3
   \<and> run_for_host (sim_os scanner_missing) cfg0 hdA (wA, []) = (Inr resH, (wM3, trM3))
   \<and> last trM3 = EvRmtree tmp0
   \<and> \<not> isdir (sim_os scanner_missing) tmp0 wM3"
proof -
  from temp_rules_dir_removed [OF prepare_A [OF cfg0_fields(1,2)] ctxA_fields(5)]
  have "CHAINS_RULE_DIR cfg0 = []" by blast
  moreover have "isdir (sim_os scanner_hit) tmp0 wA1" "\<not> isdir (sim_os scanner_hit) tmp0 wA3"
    "\<not> isdir (sim_os scanner_missing) tmp0 wM3"
    by (simp_all add: sim_os_fields wA1_def wA3_def wM3_def pathA_defs py_def)
  moreover have "last trA3 = EvRmtree tmp0" "last trM3 = EvRmtree tmp0"
    by (simp_all add: trA3_def trM3_def)
  ultimately show ?thesis
    using prepare_A [OF cfg0_fields(1,2)] run_A run_M by (simp add: ctxA_fields)
qed

lemmas pathB_defs = pathA_defs outB_def

lemma prepare_B:
  assumes "REPORTS_DIR cfg = py ''/workspace/reports''" and "CHAINS_RULE_DIR cfg = []"
  shows "prepare (sim_os sc) cfg hdB (wA3, tr) = (Inr ctxB, (wB1, tr @ [EvMakedirs outB, EvMkdtemp tmp0]))"
  using assms
  by (simp add: prepare_def wA3_def ctxB_def wB1_def pathB_defs sim_os_fields
      bind_io_def effect_def observe_def enumerate_evtx_def do_mkdtemp_def return_io_def
      Let_def str_defs)

lemma ctxB_fields:
  "ctx_host ctxB = py ''HOST-B''" "ctx_out_dir ctxB = outB" "ctx_evtx_files ctxB = []"
  "ctx_rules_dir ctxB = tmp0" "ctx_temp_rules_dir ctxB = Some tmp0"
  by (simp_all add: ctxB_def)

lemma invoke_B: "invoke (sim_os sc) cfg0 host_dir ctxB st = (Inr (), st)"
  by (simp add: invoke_def invoke_quiet_def cfg0_fields ctxB_fields return_io_app)

lemma scandir_B: "scandir (sim_os sc) outB wB1 = Inr []"
  by (simp add: sim_os_fields wB1_def child_name_def pathB_defs py_def slash_def)

lemma detection_B: "detection (sim_os sc) cfg0 ctxB (wB1, tr) = (Inr (False, None), (wB1, tr))"
  by (simp add: detection_def detection_quiet_def cfg0_fields ctxB_fields bind_io_app sorted_glob_eq
      scandir_B listed_def detect_csv_eq inspected_def reads_of_def del: detect_csv.simps)

lemma status_B: "status_line cfg0 ctxB False None = py ''[CLEAN] HOST-B -> (no report file)''"
  by (simp add: status_line_def cfg0_def ctxB_def status_of_def or_else_def py_def)

lemma run_B: "run_for_host (sim_os sc) cfg0 hdB (wA3, tr) = (Inr resB, (wB3, tr @ evsB))"
proof -
  have "cleanup (sim_os sc) ctxB
          (wB1, (tr @ [EvMakedirs outB, EvMkdtemp tmp0]) @ [EvStdout (status_line cfg0 ctxB False None)])
        = (wB3, tr @ evsB)"
    by (simp add: cleanup_tmp0 ctxB_fields wB1_def wB3_def evsB_def status_B)
      (simp add: pathB_defs py_def)
  moreover have "result_of cfg0 ctxB False None = resB"
    by (simp add: result_of_def resB_def cfg0_fields ctxB_fields)
  ultimately show ?thesis
    by (simp add: run_for_host_eq [OF prepare_B [OF cfg0_fields(1,2)]] invoke_B detection_B)
qed

lemma run_hosts_AB:
  "run_hosts (sim_os scanner_hit) cfg0 [hdA, hdB] (wA, []) = (Inr [resA, resB], (wB3, trAB))"
proof -
  have a: "py ''['' @ status_of (detected resA) @ py ''] '' @ host resA @ py '' -> '' @ str_opt (report_path resA)
      = py ''[DETECTED] HOST-A -> /workspace/reports/HOST-A-20240101120000/antivirus.csv''"
    by (simp add: resA_def status_of_def str_opt_def antivirusA_def py_def)
  have b: "py ''['' @ status_of (detected resB) @ py ''] '' @ host resB @ py '' -> '' @ str_opt (report_path resB)
      = py ''[CLEAN] HOST-B -> None''"
    by (simp add: resB_def status_of_def str_opt_def py_def)
  show ?thesis
    by (simp add: run_A run_B emit_app a b trAB_def)
qed

text \<open>
  A host directory without input files, quiet branch and csv format: no SCANNER run, and
  the result is clean with no report path.
\<close>

theorem no_input_files_witness:
  "prepare (sim_os scanner_hit) cfg0 hdB (wA3, []) = (Inr ctxB, (wB1, [EvMakedirs outB, EvMkdtemp tmp0]))
   \<and> ctx_evtx_files ctxB = []
   \<and> run_for_host (sim_os scanner_hit) cfg0 hdB (wA3, []) = (Inr resB, (wB3, evsB))
   \<and> list_all (\<lambda>ev. \<not> is_run ev) evsB
   \<and> \<not> detected resB \<and> report_path resB = None"
proof -
  have prep: "prepare (sim_os scanner_hit) cfg0 hdB (wA3, []) = (Inr ctxB, (wB1, [EvMakedirs outB, EvMkdtemp tmp0]))"
    using prepare_B [OF cfg0_fields(1,2), of scanner_hit "[]"] by simp
  have run: "run_for_host (sim_os scanner_hit) cfg0 hdB (wA3, []) = (Inr resB, (wB3, evsB))"
    using run_B [of scanner_hit "[]"] by simp
  from no_input_files [OF prep ctxB_fields(3)] run
  have "list_all (\<lambda>ev. \<not> is_run ev) evsB \<and> (\<not> detected resB \<longrightarrow> report_path resB = None)"
    by auto
  moreover have "\<not> detected resB" by (simp add: resB_def)
  ultimately show ?thesis
    using prep run by (simp add: ctxB_fields)
qed

text \<open>
  A batch of two hosts, one detected and one clean: one call of the Notifier, for one host.
\<close>

theorem notification_witness:
  "listdir (sim_os scanner_hit) (EVTX_ROOT cfg0) wA = Inr [py ''HOST-A'', py ''HOST-B'']
   \<and> host_dirs_of (sim_os scanner_hit) cfg0 wA [py ''HOST-A'', py ''HOST-B''] = [hdA, hdB]
   \<and> run_hosts (sim_os scanner_hit) cfg0 [hdA, hdB] (wA, []) = (Inr [resA, resB], (wB3, trAB))
   \<and> detected resA \<and> \<not> detected resB
   \<and> (\<exists>out w' tr'. main (sim_os scanner_hit) cfg0 (wA, []) = (out, (w', tr')) \<and>
         send_mail_calls tr' =
           [(py ''[Chainsaw Detection] 1 host(s) detected'',
             join nl (summary_head cfg0
               @ [py ''- HOST-A: /workspace/reports/HOST-A-20240101120000/antivirus.csv'']))])"
proof -
  have ls: "listdir (sim_os scanner_hit) (EVTX_ROOT cfg0) wA = Inr [py ''HOST-A'', py ''HOST-B'']"
    by (simp add: sim_os_fields cfg0_fields wA_def hdA_def hdB_def child_name_def py_def slash_def)
  have dirs: "host_dirs_of (sim_os scanner_hit) cfg0 wA [py ''HOST-A'', py ''HOST-B''] = [hdA, hdB]"
    by (simp add: host_dirs_of_def sim_os_fields cfg0_fields wA_def hdA_def hdB_def path_join_def
        py_def slash_def)
  have ne: "host_dirs_of (sim_os scanner_hit) cfg0 wA [py ''HOST-A'', py ''HOST-B''] \<noteq> []"
    by (simp add: dirs)
  have d: "detected resA" "\<not> detected resB"
    by (simp_all add: resA_def resB_def)
  have subj: "MAIL_SUBJECT_PREFIX cfg0 @ py '' '' @ str_nat (length [resA]) @ py '' host(s) detected''
      = py ''[Chainsaw Detection] 1 host(s) detected''"
    by (simp add: cfg0_def py_def)
  have line: "host_line resA = py ''- HOST-A: /workspace/reports/HOST-A-20240101120000/antivirus.csv''"
    by (simp add: host_line_def resA_def or_else_def antivirusA_def py_def)
  from notification [OF ls ne run_hosts_AB [folded dirs]] d subj line
  have "\<exists>out w' tr'. main (sim_os scanner_hit) cfg0 (wA, []) = (out, (w', tr')) \<and>
         send_mail_calls tr' =
           [(py ''[Chainsaw Detection] 1 host(s) detected'',
             join nl (summary_head cfg0
               @ [py ''- HOST-A: /workspace/reports/HOST-A-20240101120000/antivirus.csv'']))]"
    by simp
  with ls dirs run_hosts_AB d show ?thesis by simp
qed

lemmas pathD_defs = hdD_def outD_def logD_def tmp0_def

lemma cfgL_fields:
  "REPORTS_DIR cfgL = py ''/workspace/reports''" "CHAINS_RULE_DIR cfgL = []" "\<not> QUIET cfgL"
  "CHAINS_FORMAT cfgL = py ''log''" "CHAINS_LEVELS cfgL = []" "CHAINS_MODE cfgL = py ''hunt''"
  by (simp_all add: cfgL_def cfg0_def)


lemma log_not_csv_json: "py ''log'' \<noteq> py ''csv''" "py ''log'' \<noteq> py ''json''"
  by (simp_all add: py_def)

lemma ctxD_fields:
  "ctx_host ctxD = py ''DETECTED-LAB''" "ctx_out_dir ctxD = outD" "ctx_log_path ctxD = logD"
  "ctx_evtx_files ctxD = []" "ctx_rules_dir ctxD = tmp0" "ctx_temp_rules_dir ctxD = Some tmp0"
  by (simp_all add: ctxD_def)

lemma prepare_D:
  assumes "REPORTS_DIR cfg = py ''/workspace/reports''" and "CHAINS_RULE_DIR cfg = []"
  shows "prepare (sim_os sc) cfg hdD (wD, []) = (Inr ctxD, (wD1, trD1))"
  using assms
  by (simp add: prepare_def wD_def ctxD_def wD1_def trD1_def pathD_defs sim_os_fields
      bind_io_def effect_def observe_def enumerate_evtx_def do_mkdtemp_def return_io_def
      Let_def str_defs)

lemma header_D: "log_header (sim_os sc) cfgL hdD ctxD w = headerD"
  by (simp add: log_header_def headerD_def cfgL_fields ctxD_fields sim_os_fields pathD_defs py_def nl_def)

lemma write_all_sim:
  "write_all (sim_os sc) lp ss (w, tr) =
     (Inr (), (w\<lparr>sim_files := foldl (\<lambda>fs s. sim_write lp s fs) (sim_files w) ss\<rparr>,
               tr @ map (EvWrite lp) ss))"
  by (induction ss arbitrary: w tr) (simp_all add: return_io_app bind_io_app effect_app sim_os_fields)

lemma foldl_sim_write:
  "foldl (\<lambda>fs s. sim_write lp s fs) [(lp, c)] ss = [(lp, c @ concat ss)]"
  by (induction ss arbitrary: c) (simp_all add: sim_write_def)

lemma sim_write_single: "sim_write lp s [(lp, c)] = [(lp, c @ s)]"
  by (simp add: sim_write_def)

lemma invoke_verbose_app:
  "invoke_verbose os cfg host_dir ctx (w, tr) =
     (case open_w os (ctx_log_path ctx) w of
        Inl e \<Rightarrow> (Inl e, (w, tr @ [EvOpen (ctx_log_path ctx)]))
      | Inr w1 \<Rightarrow>
          (case write_all os (ctx_log_path ctx) (log_header os cfg host_dir ctx w1)
                  (w1, tr @ [EvOpen (ctx_log_path ctx)]) of
             (Inl e, st) \<Rightarrow> (Inl e, st)
           | (Inr u, st) \<Rightarrow>
               (if ctx_evtx_files ctx = []
                then effect (EvWrite (ctx_log_path ctx) (py ''# skipped: no .evtx found'' @ nl))
                       (write_text os (ctx_log_path ctx) (py ''# skipped: no .evtx found'' @ nl)) st
                else run_files_verbose os cfg ctx (ctx_evtx_files ctx) st)))"
  by (simp add: invoke_verbose_def bind_io_def effect_def split: sum.splits prod.splits)

lemma invoke_D: "invoke (sim_os sc) cfgL hdD ctxD (wD1, trD1) = (Inr (), (wD2, trD2))"
  by (simp add: invoke_def cfgL_fields invoke_verbose_app ctxD_fields sim_os_fields header_D
      write_all_sim wD1_def foldl_sim_write effect_app sim_write_single wD2_def trD2_def contentD_def
      skipD_def)

lemma read_D: "read_text (sim_os sc) logD wD2 = Inr contentD"
  by (simp add: sim_os_fields wD2_def)

lemma sub_D: "sublist (py ''DETECTED'') contentD"
proof -
  have "contentD = (py ''# started: 2024-01-01T12:00:00'' @ nl @ py ''# host_dir: /workspace/evtx/'')
          @ py ''DETECTED''
          @ (py ''-LAB'' @ nl @ concat (drop 2 headerD) @ skipD)"
    by (simp add: contentD_def headerD_def py_def)
  then show ?thesis
    by (metis sublist_appendI)
qed

lemma detection_D:
  "detection (sim_os sc) cfgL ctxD (wD2, tr) = (Inr (True, None), (wD2, tr @ [EvRead logD (Inr contentD)]))"
  by (simp add: detection_def detection_verbose_def cfgL_fields log_not_csv_json ctxD_fields
      detect_log_eq read_D sub_D)

lemma run_D:
  "run_for_host (sim_os sc) cfgL hdD (wD, []) =
     (Inr resD, cleanup (sim_os sc) ctxD
        (wD2, (trD2 @ [EvRead logD (Inr contentD)]) @ [EvStdout (status_line cfgL ctxD True None)]))"
proof -
  have "result_of cfgL ctxD True None = resD"
    by (simp add: result_of_def resD_def cfgL_fields ctxD_fields)
  then show ?thesis
    by (simp add: run_for_host_eq [OF prepare_D [OF cfgL_fields(1,2)]] invoke_D detection_D)
qed

text \<open>
  Claim C6 as the specification states it promises \<open>detected = False\<close> for every host
  directory without input files. In the verbose branch with the log format the detection
  reads the log the wrapper itself has written, whose header names the host directory:
  for a host directory called \<^verbatim>\<open>DETECTED-LAB\<close> the result is detected.
\<close>

theorem no_input_files_counterexample:
  "prepare (sim_os scanner_none) cfgL hdD (wD, []) = (Inr ctxD, (wD1, trD1))
   \<and> ctx_evtx_files ctxD = []
   \<and> fst (run_for_host (sim_os scanner_none) cfgL hdD (wD, [])) = Inr resD
   \<and> detected resD"
  by (simp add: prepare_D [OF cfgL_fields(1,2)] ctxD_fields run_D) (simp add: resD_def)






















end
